theory Spec2Isabelle
  imports Complex_Main
begin

section \<open>Python values used by the program\<close>

text \<open>
  A Python \<open>str\<close> is modelled as a \<open>string\<close> whose characters are the code points
  U+0000 to U+00FF. The exceptions that the modelled code can raise are values of
  \<open>error\<close>; a computation that may raise has the type \<open>error + 'a\<close>.
\<close>

datatype error = KeyError | TypeError | AttributeError | NameError

definition bindE :: "error + 'a \<Rightarrow> ('a \<Rightarrow> error + 'b) \<Rightarrow> error + 'b" where
  "bindE m f = (case m of Inl e \<Rightarrow> Inl e | Inr x \<Rightarrow> f x)"

text \<open>Truthiness of an optional string: \<open>None\<close> and the empty string are falsy.\<close>

definition truthy :: "string option \<Rightarrow> bool" where
  "truthy v = (case v of None \<Rightarrow> False | Some s \<Rightarrow> s \<noteq> [])"

text \<open>
  \<open>str.lower\<close> on the modelled code points: the ASCII capitals and the Latin-1 capitals
  U+00C0 to U+00DE (without the multiplication sign U+00D7) move up by 32.
\<close>

definition lower_char :: "char \<Rightarrow> char" where
  "lower_char c =
     (let n = (of_char c :: nat)
      in if (65 \<le> n \<and> n \<le> 90) \<or> (192 \<le> n \<and> n \<le> 222 \<and> n \<noteq> 215)
         then char_of (n + 32) else c)"

definition py_lower :: "string \<Rightarrow> string" where
  "py_lower s = map lower_char s"

text \<open>
  \<open>str.isdigit\<close>: every character has the Unicode property Numeric\_Type Digit or
  Decimal and the string is not empty. Below U+0100 these are the ASCII digits and the
  superscripts U+00B2, U+00B3 and U+00B9. The regular expression class \<open>\d\<close> is
  narrower: below U+0100 it holds the ASCII digits only.
\<close>

definition re_digit :: "char \<Rightarrow> bool" where
  "re_digit c = (let n = (of_char c :: nat) in 48 \<le> n \<and> n \<le> 57)"

definition isdigit_char :: "char \<Rightarrow> bool" where
  "isdigit_char c = (let n = (of_char c :: nat) in (48 \<le> n \<and> n \<le> 57) \<or> n = 178 \<or> n = 179 \<or> n = 185)"

definition py_isdigit :: "string \<Rightarrow> bool" where
  "py_isdigit s = (s \<noteq> [] \<and> list_all isdigit_char s)"

definition startswith :: "string \<Rightarrow> string \<Rightarrow> bool" where
  "startswith s p = (take (length p) s = p)"

definition endswith :: "string \<Rightarrow> string \<Rightarrow> bool" where
  "endswith s p = (length p \<le> length s \<and> drop (length s - length p) s = p)"

text \<open>The substring test \<open>sub in s\<close>.\<close>

fun py_in :: "string \<Rightarrow> string \<Rightarrow> bool" where
  "py_in sub [] = (sub = [])"
| "py_in sub (c # cs) = (startswith (c # cs) sub \<or> py_in sub cs)"

section \<open>Regular expressions and \<open>re.match\<close>\<close>

text \<open>
  The three compiled patterns of the module use literals, the class \<open>\d\<close>, one character
  range, sequencing, alternation, \<open>?\<close> and counted repetition. \<open>rmatch r s\<close> lists the
  remainders of \<open>s\<close> after every way of matching \<open>r\<close> at its start; \<open>re.match\<close>
  succeeds when there is one (it anchors the start only, not the end).
\<close>

datatype regex =
    Eps
  | Lit char
  | Digit
  | CharRange char char
  | Seq regex regex
  | Alt regex regex
  | Opt regex

fun rmatch :: "regex \<Rightarrow> string \<Rightarrow> string list" where
  "rmatch Eps s = [s]"
| "rmatch (Lit a) s = (case s of [] \<Rightarrow> [] | c # cs \<Rightarrow> if c = a then [cs] else [])"
| "rmatch Digit s = (case s of [] \<Rightarrow> [] | c # cs \<Rightarrow> if re_digit c then [cs] else [])"
| "rmatch (CharRange lo hi) s =
     (case s of [] \<Rightarrow> []
      | c # cs \<Rightarrow> if (of_char lo :: nat) \<le> of_char c \<and> (of_char c :: nat) \<le> of_char hi
                  then [cs] else [])"
| "rmatch (Seq r1 r2) s = concat (map (rmatch r2) (rmatch r1 s))"
| "rmatch (Alt r1 r2) s = rmatch r1 s @ rmatch r2 s"
| "rmatch (Opt r) s = rmatch r s @ [s]"

definition re_match :: "regex \<Rightarrow> string \<Rightarrow> bool" where
  "re_match r s = (rmatch r s \<noteq> [])"

text \<open>\<open>r{n}\<close>, \<open>r{m,n}\<close> and a literal word.\<close>

fun rep_exact :: "nat \<Rightarrow> regex \<Rightarrow> regex" where
  "rep_exact 0 r = Eps"
| "rep_exact (Suc n) r = Seq r (rep_exact n r)"

fun rep_upto :: "nat \<Rightarrow> regex \<Rightarrow> regex" where
  "rep_upto 0 r = Eps"
| "rep_upto (Suc n) r = Opt (Seq r (rep_upto n r))"

definition between :: "nat \<Rightarrow> nat \<Rightarrow> regex \<Rightarrow> regex" where
  "between m n r = Seq (rep_exact m r) (rep_upto (n - m) r)"

fun word :: "string \<Rightarrow> regex" where
  "word [] = Eps"
| "word (c # cs) = Seq (Lit c) (word cs)"

text \<open>
  \<^verbatim>\<open>IMDB_ID_PATTERN = re.compile(r'ev\d{7,8}\/\d{4}(-\d)?|(ch|co|ev|nm|tt)\d{7,8}')\<close>,
  \<^verbatim>\<open>TMDB_ID_PATTERN = re.compile(r'[1-9]\d{1,10}')\<close>,
  \<^verbatim>\<open>YEAR_PATTERN = re.compile(r'\d{4}')\<close>.
\<close>

definition IMDB_ID_PATTERN :: regex where
  "IMDB_ID_PATTERN =
     Alt (Seq (word ''ev'') (Seq (between 7 8 Digit) (Seq (Lit CHR ''/'')
            (Seq (rep_exact 4 Digit) (Opt (Seq (Lit CHR ''-'') Digit))))))
         (Seq (Alt (word ''ch'') (Alt (word ''co'') (Alt (word ''ev'') (Alt (word ''nm'') (word ''tt'')))))
              (between 7 8 Digit))"

definition TMDB_ID_PATTERN :: regex where
  "TMDB_ID_PATTERN = Seq (CharRange CHR ''1'' CHR ''9'') (between 1 10 Digit)"

definition YEAR_PATTERN :: regex where
  "YEAR_PATTERN = rep_exact 4 Digit"

definition MIN_MOVIE_DURATION :: real where
  "MIN_MOVIE_DURATION = 600"

definition VIDEO_EXTENSIONS :: "string list" where
  "VIDEO_EXTENSIONS = [''.mkv'', ''.iso'', ''.wmv'', ''.avi'', ''.mp4'', ''.m4v'', ''.img'',
     ''.divx'', ''.mov'', ''.flv'', ''.m2ts'']"

definition NFO_EXTENSIONS :: "string list" where
  "NFO_EXTENSIONS = [''.nfo'', ''.xml'']"

definition ID_TAGS :: "string list" where
  "ID_TAGS = [''imdb'', ''tmdb'', ''imdbid'', ''tmdbid'', ''tmdb_id'', ''imdb_id'', ''id'']"

section \<open>Paths (\<open>posixpath\<close>)\<close>

text \<open>\<open>str.rfind\<close> for a single character: the last index, or \<open>-1\<close>.\<close>

fun rfind_aux :: "char \<Rightarrow> string \<Rightarrow> int \<Rightarrow> int \<Rightarrow> int" where
  "rfind_aux c [] i best = best"
| "rfind_aux c (x # xs) i best = rfind_aux c xs (i + 1) (if x = c then i else best)"

definition rfind :: "string \<Rightarrow> char \<Rightarrow> int" where
  "rfind s c = rfind_aux c s 0 (-1)"

text \<open>
  \<open>os.path.splitext\<close>: the extension starts at the last dot of the last path
  component, unless that component has only dots before it. The inner loop looks for a
  character other than a dot between the separator and the last dot.
\<close>

fun has_nondot :: "string \<Rightarrow> bool" where
  "has_nondot [] = False"
| "has_nondot (c # cs) = (if c \<noteq> CHR ''.'' then True else has_nondot cs)"

definition splitext :: "string \<Rightarrow> string \<times> string" where
  "splitext p =
     (let sepIndex = rfind p CHR ''/''; dotIndex = rfind p CHR ''.''
      in if dotIndex > sepIndex
            \<and> has_nondot (take (nat dotIndex - nat (sepIndex + 1)) (drop (nat (sepIndex + 1)) p))
         then (take (nat dotIndex) p, drop (nat dotIndex) p)
         else (p, []))"

definition basename :: "string \<Rightarrow> string" where
  "basename p = drop (nat (rfind p CHR ''/'' + 1)) p"

fun rstrip_sep :: "string \<Rightarrow> string" where
  "rstrip_sep s = rev (dropWhile (\<lambda>c. c = CHR ''/'') (rev s))"

definition dirname :: "string \<Rightarrow> string" where
  "dirname p =
     (let head = take (nat (rfind p CHR ''/'' + 1)) p
      in if head \<noteq> [] \<and> head \<noteq> replicate (length head) CHR ''/'' then rstrip_sep head else head)"

text \<open>\<open>os.path.join\<close> of two components.\<close>

definition path_join :: "string \<Rightarrow> string \<Rightarrow> string" where
  "path_join a b =
     (if startswith b ''/'' then b
      else if a = [] \<or> endswith a ''/'' then a @ b
      else a @ ''/'' @ b)"

section \<open>The environment: file system, probe and XML parser\<close>

text \<open>
  \<open>float(result.stdout)\<close> yields a float, which may be infinite or not a number; only its
  comparison with the threshold is used, so a finite float is modelled by its real value.
\<close>

datatype pyfloat = Num real | PosInf | NegInf | NaN

definition float_ge :: "pyfloat \<Rightarrow> real \<Rightarrow> bool" where
  "float_ge d x = (case d of Num v \<Rightarrow> v \<ge> x | PosInf \<Rightarrow> True | NegInf \<Rightarrow> False | NaN \<Rightarrow> False)"

record element =
  el_tag :: string
  el_attrib :: "(string \<times> string) list"
  el_text :: "string option"

text \<open>
  \<open>et.parse(path)\<close> followed by \<open>getroot()\<close>: \<open>IOError\<close>, \<open>ParseError\<close>, or the children
  of the root element in document order.
\<close>

datatype xml_result = Unreadable | Malformed | Root "element list"

text \<open>
  What the program reads from its environment. \<open>scandir\<close> and \<open>listdir\<close> give entry names
  in listing order; \<open>ffprobe\<close> gives \<open>float(result.stdout)\<close>, or \<open>None\<close> where \<open>float\<close>
  raises \<open>ValueError\<close>.
\<close>

record fs =
  abspath :: "string \<Rightarrow> string"
  isdir :: "string \<Rightarrow> bool"
  isfile :: "string \<Rightarrow> bool"
  scandir :: "string \<Rightarrow> string list"
  listdir :: "string \<Rightarrow> string list"
  getsize :: "string \<Rightarrow> nat"
  ffprobe :: "string \<Rightarrow> pyfloat option"
  et_parse :: "string \<Rightarrow> xml_result"

section \<open>\<open>media/movieFolder.py\<close>: class \<open>Video\<close>\<close>

record Video =
  v_path :: string
  duration :: pyfloat

definition fileName :: "string \<Rightarrow> string" where
  "fileName path = basename path"

definition get_duration :: "fs \<Rightarrow> string \<Rightarrow> pyfloat" where
  "get_duration env path =
     (case ffprobe env path of
        Some d \<Rightarrow> d
      | None \<Rightarrow>
          if endswith (fst (splitext (fileName path))) ''-trailer'' then Num 1
          else Num (MIN_MOVIE_DURATION + 1))"

definition Video_init :: "fs \<Rightarrow> string \<Rightarrow> bool \<Rightarrow> bool \<Rightarrow> Video" where
  "Video_init env path skip_processing is_trailer =
     \<lparr>v_path = path,
      duration =
        (if skip_processing then
           (if is_trailer then Num (MIN_MOVIE_DURATION - 1) else Num (MIN_MOVIE_DURATION + 1))
         else get_duration env path)\<rparr>"

definition isMovie :: "Video \<Rightarrow> bool" where
  "isMovie v = float_ge (duration v) MIN_MOVIE_DURATION"

section \<open>\<open>media/movieFolder.py\<close>: class \<open>NFO\<close>\<close>

text \<open>The private attributes of an \<open>NFO\<close> object; \<open>raw_x\<close> stands for \<open>self.__x\<close>.\<close>

record NFO =
  nfo_path :: string
  raw_originaltitle :: "string option"
  raw_title :: "string option"
  raw_localtitle :: "string option"
  raw_year :: "string option"
  raw_releasedate :: "string option"
  raw_premiered :: "string option"
  raw_productionyear :: "string option"
  raw_imdb :: "string option"
  raw_tmdb :: "string option"
  raw_unique_id_imdb :: "string option"
  raw_unique_id_tmdb :: "string option"
  raw_id :: "string option"

definition NFO_fields_unset :: "string \<Rightarrow> NFO" where
  "NFO_fields_unset path =
     \<lparr>nfo_path = path, raw_originaltitle = None, raw_title = None, raw_localtitle = None,
      raw_year = None, raw_releasedate = None, raw_premiered = None, raw_productionyear = None,
      raw_imdb = None, raw_tmdb = None, raw_unique_id_imdb = None, raw_unique_id_tmdb = None,
      raw_id = None\<rparr>"

text \<open>
  The values that reach \<open>__parse_releaseDate\<close>: \<open>None\<close>, a string, and (from the \<open>year\<close>
  property) the bound method \<open>self.__parse_releaseDate\<close> itself.
\<close>

datatype pyval = PyNone | PyStr string | PyBoundMethod

definition of_opt :: "string option \<Rightarrow> pyval" where
  "of_opt v = (case v of None \<Rightarrow> PyNone | Some s \<Rightarrow> PyStr s)"

text \<open>
  The expression \<^verbatim>\<open>str(datetime.strptime(releaseDate, '%Y-%m-%d').year)\<close>. The module imports
  \<open>os\<close>, \<open>json\<close>, \<open>subprocess\<close>, \<open>re\<close>, \<open>logger\<close> and \<open>ElementTree\<close>, and binds no
  global \<open>datetime\<close>: looking the name up raises \<open>NameError\<close> before \<open>strptime\<close> is reached.
\<close>

definition strptime_year :: "string \<Rightarrow> error + string" where
  "strptime_year releaseDate = Inl NameError"

text \<open>
  \<open>__parse_releaseDate\<close>. A bound method is truthy and has no \<open>len\<close>: \<open>TypeError\<close>, raised
  outside the \<open>try\<close>. The bare \<open>except\<close> turns every exception of the \<open>try\<close> body into
  \<open>None\<close>.
\<close>

definition parse_releaseDate :: "pyval \<Rightarrow> error + string option" where
  "parse_releaseDate releaseDate =
     (case releaseDate of
        PyNone \<Rightarrow> Inr None
      | PyBoundMethod \<Rightarrow> Inl TypeError
      | PyStr s \<Rightarrow>
          if s = [] then Inr None
          else if length s = 4 \<and> py_isdigit s then Inr (Some s)
          else (case strptime_year s of Inl e \<Rightarrow> Inr None | Inr y \<Rightarrow> Inr (Some y)))"

text \<open>\<open>x and re.match(PATTERN, x)\<close> for an attribute \<open>x\<close> that is \<open>None\<close> or a string.\<close>

definition valid :: "regex \<Rightarrow> string option \<Rightarrow> bool" where
  "valid pat v = (case v of None \<Rightarrow> False | Some s \<Rightarrow> s \<noteq> [] \<and> re_match pat s)"

definition title :: "NFO \<Rightarrow> string option" where
  "title r =
     (case raw_originaltitle r of
        Some s \<Rightarrow> Some s
      | None \<Rightarrow> (case raw_title r of Some s \<Rightarrow> Some s | None \<Rightarrow> raw_localtitle r))"

text \<open>
  One date branch of the \<open>year\<close> property:
  \<^verbatim>\<open>year = self.__parse_releaseDate(arg); match = re.match(YEAR_PATTERN, year); if match: return year\<close>.
  \<open>Some y\<close> is the returned year, \<open>None\<close> falls through; \<open>re.match\<close> on \<open>None\<close> raises
  \<open>TypeError\<close>.
\<close>

definition year_branch :: "pyval \<Rightarrow> error + string option" where
  "year_branch arg =
     bindE (parse_releaseDate arg)
       (\<lambda>year. case year of
                 None \<Rightarrow> Inl TypeError
               | Some y \<Rightarrow> Inr (if re_match YEAR_PATTERN y then Some y else None))"

text \<open>
  The \<open>year\<close> property. Its second branch calls
  \<^verbatim>\<open>self.__parse_releaseDate(self.__parse_releaseDate)\<close>: the argument is the bound method.
\<close>

definition year :: "NFO \<Rightarrow> error + string option" where
  "year r =
     bindE (if truthy (raw_premiered r) then year_branch (of_opt (raw_premiered r)) else Inr None)
       (\<lambda>from_premiered. case from_premiered of
          Some y \<Rightarrow> Inr (Some y)
        | None \<Rightarrow>
            bindE (if truthy (raw_releasedate r) then year_branch PyBoundMethod else Inr None)
              (\<lambda>from_releasedate. case from_releasedate of
                 Some y \<Rightarrow> Inr (Some y)
               | None \<Rightarrow>
                   if valid YEAR_PATTERN (raw_year r) then Inr (raw_year r)
                   else if valid YEAR_PATTERN (raw_productionyear r) then Inr (raw_productionyear r)
                   else Inr None))"

definition imdb :: "NFO \<Rightarrow> string option" where
  "imdb r =
     (if valid IMDB_ID_PATTERN (raw_unique_id_imdb r) then raw_unique_id_imdb r
      else if valid IMDB_ID_PATTERN (raw_imdb r) then raw_imdb r
      else if valid IMDB_ID_PATTERN (raw_id r) then raw_id r
      else None)"

definition tmdb :: "NFO \<Rightarrow> string option" where
  "tmdb r =
     (if valid TMDB_ID_PATTERN (raw_unique_id_tmdb r) then raw_unique_id_tmdb r
      else if valid TMDB_ID_PATTERN (raw_tmdb r) then raw_tmdb r
      else if valid TMDB_ID_PATTERN (raw_id r) then raw_id r
      else None)"

definition is_complete :: "NFO \<Rightarrow> error + bool" where
  "is_complete r =
     (if truthy (imdb r) \<or> truthy (tmdb r) then Inr True
      else if truthy (title r) then bindE (year r) (\<lambda>y. Inr (truthy y))
      else Inr False)"

definition parse_id :: "NFO \<Rightarrow> string option \<Rightarrow> NFO" where
  "parse_id r movie_id =
     (case movie_id of
        None \<Rightarrow> r
      | Some s \<Rightarrow>
          if s = [] then r
          else if startswith (py_lower s) ''tt'' then r\<lparr>raw_imdb := Some s\<rparr>
          else if py_isdigit s then r\<lparr>raw_tmdb := Some s\<rparr>
          else r)"

text \<open>One iteration of the loop of \<open>__parse_nfo\<close>; \<open>item.attrib['type']\<close> raises \<open>KeyError\<close>.\<close>

definition parse_item :: "NFO \<Rightarrow> element \<Rightarrow> error + NFO" where
  "parse_item r item =
     (let t = py_lower (el_tag item)
      in if t = ''uniqueid'' then
           (case map_of (el_attrib item) ''type'' of
              None \<Rightarrow> Inl KeyError
            | Some ty \<Rightarrow>
                if py_lower ty = ''tmdb'' then Inr (r\<lparr>raw_unique_id_tmdb := el_text item\<rparr>)
                else if py_lower ty = ''imdb'' then Inr (r\<lparr>raw_unique_id_imdb := el_text item\<rparr>)
                else Inr r)
         else if t \<in> set ID_TAGS then Inr (parse_id r (el_text item))
         else if t = ''premiered'' then
           bindE (parse_releaseDate (of_opt (el_text item))) (\<lambda>v. Inr (r\<lparr>raw_premiered := v\<rparr>))
         else if t = ''release_date'' then
           bindE (parse_releaseDate (of_opt (el_text item))) (\<lambda>v. Inr (r\<lparr>raw_releasedate := v\<rparr>))
         else if t = ''year'' then Inr (r\<lparr>raw_year := el_text item\<rparr>)
         else if t = ''productionyear'' then Inr (r\<lparr>raw_productionyear := el_text item\<rparr>)
         else if t = ''title'' then Inr (r\<lparr>raw_title := el_text item\<rparr>)
         else if t = ''originaltitle'' then Inr (r\<lparr>raw_originaltitle := el_text item\<rparr>)
         else if t = ''localtitle'' then Inr (r\<lparr>raw_localtitle := el_text item\<rparr>)
         else Inr r)"

fun parse_items :: "NFO \<Rightarrow> element list \<Rightarrow> error + NFO" where
  "parse_items r [] = Inr r"
| "parse_items r (item # items) = bindE (parse_item r item) (\<lambda>r'. parse_items r' items)"

text \<open>\<open>__parse_nfo\<close>: the \<open>try\<close> covers \<open>et.parse\<close> and \<open>getroot\<close> only.\<close>

definition parse_nfo :: "fs \<Rightarrow> NFO \<Rightarrow> error + NFO" where
  "parse_nfo env r =
     (case et_parse env (nfo_path r) of
        Unreadable \<Rightarrow> Inr r
      | Malformed \<Rightarrow> Inr r
      | Root items \<Rightarrow> parse_items r items)"

definition NFO_init :: "fs \<Rightarrow> string \<Rightarrow> error + NFO" where
  "NFO_init env path = parse_nfo env (NFO_fields_unset path)"

definition fileSize :: "fs \<Rightarrow> string \<Rightarrow> nat" where
  "fileSize env path = getsize env path"

section \<open>\<open>media/movieFolder.py\<close>: class \<open>MovieFolder\<close>\<close>

record MovieFolder =
  rootDir :: string
  movie :: "Video option"
  trailer :: "Video option"
  nfo :: "NFO option"

definition hasTrailer :: "MovieFolder \<Rightarrow> bool" where
  "hasTrailer self = (trailer self \<noteq> None)"

definition hasMovie :: "MovieFolder \<Rightarrow> bool" where
  "hasMovie self = (movie self \<noteq> None)"

definition trailerName :: "MovieFolder \<Rightarrow> string option" where
  "trailerName self =
     (case movie self of
        None \<Rightarrow> None
      | Some m \<Rightarrow> Some (fst (splitext (fileName (v_path m))) @ ''-trailer.mp4''))"

definition trailerDirectory :: "MovieFolder \<Rightarrow> string option" where
  "trailerDirectory self =
     (case movie self of None \<Rightarrow> None | Some m \<Rightarrow> Some (dirname (v_path m)))"

text \<open>
  The loop over \<open>os.listdir(item.path)\<close> inside a disc folder: an entry whose lower-cased
  name contains the marker is probed and becomes the trailer when it is not a movie.
\<close>

fun disc_trailers :: "fs \<Rightarrow> string \<Rightarrow> string \<Rightarrow> string list \<Rightarrow> MovieFolder \<Rightarrow> MovieFolder" where
  "disc_trailers env dir marker [] self = self"
| "disc_trailers env dir marker (entry # entries) self =
     disc_trailers env dir marker entries
       (if py_in marker (py_lower entry) then
          (let video = Video_init env (path_join dir entry) False False
           in if \<not> isMovie video then self\<lparr>trailer := Some video\<rparr> else self)
        else self)"

text \<open>
  The sidecar branch of \<open>scan\<close>:
  \<^verbatim>\<open>if (nfo.is_complete and not self.nfo) or (nfo.is_complete and nfo.fileSize > self.nfo.fileSize)\<close>.
  An \<open>NFO\<close> object is always truthy, so \<open>not self.nfo\<close> holds exactly when \<open>self.nfo\<close> is
  \<open>None\<close>; in that case the second disjunct is reached only with \<open>is_complete\<close> false and stops
  there.
\<close>

definition keep_nfo :: "fs \<Rightarrow> MovieFolder \<Rightarrow> NFO \<Rightarrow> error + MovieFolder" where
  "keep_nfo env self n =
     bindE (is_complete n)
       (\<lambda>complete.
          case nfo self of
            None \<Rightarrow> Inr (if complete then self\<lparr>nfo := Some n\<rparr> else self)
          | Some kept \<Rightarrow>
              Inr (if complete \<and> fileSize env (nfo_path n) > fileSize env (nfo_path kept)
                   then self\<lparr>nfo := Some n\<rparr> else self))"

text \<open>One iteration of the loop of \<open>scan\<close>, for the entry at \<open>path\<close>.\<close>

definition scan_item :: "fs \<Rightarrow> MovieFolder \<Rightarrow> string \<Rightarrow> error + MovieFolder" where
  "scan_item env self path =
     (if isfile env path then
        (let ext = snd (splitext path)
         in if ext \<in> set VIDEO_EXTENSIONS then
              (let video = Video_init env path False False
               in if isMovie video then Inr (self\<lparr>movie := Some video\<rparr>)
                  else Inr (self\<lparr>trailer := Some video\<rparr>))
            else if ext \<in> set NFO_EXTENSIONS then
              bindE (NFO_init env path) (keep_nfo env self)
            else Inr self)
      else if isdir env path then
        (if py_in ''bdmv'' (py_lower path) \<and> isdir env path then
           (let bd_file = path_join path ''index.bdmv''
            in if isfile env bd_file then
                 Inr (disc_trailers env path ''index-trailer'' (listdir env path)
                        (self\<lparr>movie := Some (Video_init env bd_file True False)\<rparr>))
               else Inr self)
         else if py_in ''video_ts'' (py_lower path) \<and> isdir env path then
           (let dvd_file = path_join path ''VIDEO_TS.IFO''
            in if isfile env dvd_file then
                 Inr (disc_trailers env path ''video_ts-trailer'' (listdir env path)
                        (self\<lparr>movie := Some (Video_init env dvd_file True False)\<rparr>))
               else Inr self)
         else Inr self)
      else Inr self)"

fun scan_items :: "fs \<Rightarrow> MovieFolder \<Rightarrow> string list \<Rightarrow> error + MovieFolder" where
  "scan_items env self [] = Inr self"
| "scan_items env self (name # names) =
     bindE (scan_item env self (path_join (rootDir self) name)) (\<lambda>self'. scan_items env self' names)"

definition scan :: "fs \<Rightarrow> MovieFolder \<Rightarrow> error + MovieFolder" where
  "scan env self = scan_items env self (scandir env (rootDir self))"

definition MovieFolder_init :: "fs \<Rightarrow> string \<Rightarrow> error + MovieFolder" where
  "MovieFolder_init env directory =
     scan env \<lparr>rootDir = abspath env directory, movie = None, trailer = None, nfo = None\<rparr>"

section \<open>\<open>TrailerTech.py\<close>: class \<open>TrailerTech\<close>\<close>

record stats =
  directoriesScanned :: int
  trailersDownloaded :: int
  trailersFound :: int

definition TrailerTech_init :: stats where
  "TrailerTech_init = \<lparr>directoriesScanned = 0, trailersDownloaded = 0, trailersFound = 0\<rparr>"


text \<open>
  The collaborators (\<open>Tmdb\<close>, \<open>Apple\<close>, \<open>Downloader\<close>) live outside the two modules; they are
  parameters. They act on a world \<open>'w\<close>, which also determines what the file system shows.
  Link lists are lists of strings and a download returns a truth value.
\<close>

record 'w collab =
  fs_of :: "'w \<Rightarrow> fs"
  get_movie_details ::
    "string option \<Rightarrow> string option \<Rightarrow> string option \<Rightarrow> string option \<Rightarrow> 'w \<Rightarrow> 'w"
  getLinks :: "string option \<Rightarrow> string option \<Rightarrow> 'w \<Rightarrow> string list \<times> 'w"
  get_trailer_links :: "'w \<Rightarrow> string list \<times> 'w"
  downloadApple :: "string option \<Rightarrow> string option \<Rightarrow> string \<Rightarrow> 'w \<Rightarrow> bool \<times> 'w"
  downloadYouTube :: "string option \<Rightarrow> string option \<Rightarrow> string \<Rightarrow> 'w \<Rightarrow> bool \<times> 'w"

text \<open>How an invocation of \<open>get_Trailer\<close> ends when no exception escapes.\<close>

datatype terminal = SkippedInvalidPath | SkippedNoMovie | AlreadyPresent | Downloaded | NotFound

text \<open>
  A \<open>for link in links\<close> loop of \<open>get_Trailer\<close>: it returns at the first download that
  succeeds. Beside the outcome and the world it yields the calls made, each with its
  result, in the order they were made.
\<close>

fun try_links ::
  "(string \<Rightarrow> 'w \<Rightarrow> bool \<times> 'w) \<Rightarrow> string list \<Rightarrow> 'w \<Rightarrow> bool \<times> (string \<times> bool) list \<times> 'w" where
  "try_links download [] w = (False, [], w)"
| "try_links download (link # links) w =
     (case download link w of
        (True, w') \<Rightarrow> (True, [(link, True)], w')
      | (False, w') \<Rightarrow>
          (case try_links download links w' of
             (hit, calls, w'') \<Rightarrow> (hit, (link, False) # calls, w'')))"

datatype source = Apple | YouTube

text \<open>Lines 68 to 84: the scraper's links first, then the catalog's.\<close>

definition try_downloads ::
  "'w collab \<Rightarrow> MovieFolder \<Rightarrow> string list \<Rightarrow> string list \<Rightarrow> stats \<times> 'w
     \<Rightarrow> terminal \<times> stats \<times> 'w \<times> (source \<times> string \<times> bool) list" where
  "try_downloads c folder appleLinks ytLinks sw =
     (case sw of (s, w) \<Rightarrow>
      (case try_links (downloadApple c (trailerName folder) (trailerDirectory folder)) appleLinks w of
         (True, calls1, w1) \<Rightarrow>
           (Downloaded, s\<lparr>trailersDownloaded := trailersDownloaded s + 1\<rparr>, w1,
            map (Pair Apple) calls1)
       | (False, calls1, w1) \<Rightarrow>
           (case try_links (downloadYouTube c (trailerName folder) (trailerDirectory folder)) ytLinks w1 of
              (True, calls2, w2) \<Rightarrow>
                (Downloaded, s\<lparr>trailersDownloaded := trailersDownloaded s + 1\<rparr>, w2,
                 map (Pair Apple) calls1 @ map (Pair YouTube) calls2)
            | (False, calls2, w2) \<Rightarrow>
                (NotFound, s, w2, map (Pair Apple) calls1 @ map (Pair YouTube) calls2))))"

text \<open>
  Lines 58 to 63: the arguments handed to the collaborators. Without overrides they are
  read from \<open>folder.nfo\<close>, left to right; \<open>folder.nfo\<close> may be \<open>None\<close>, and then
  \<open>folder.nfo.tmdb\<close> raises \<open>AttributeError\<close>.
\<close>

definition lookup_args ::
  "MovieFolder \<Rightarrow> string option \<Rightarrow> string option \<Rightarrow> string option \<Rightarrow> string option
     \<Rightarrow> error + (string option \<times> string option \<times> string option \<times> string option)" where
  "lookup_args folder tmdbid imdbid title_arg year_arg =
     (if (truthy tmdbid \<or> truthy imdbid) \<or> (truthy title_arg \<and> truthy year_arg)
      then Inr (tmdbid, imdbid, title_arg, year_arg)
      else (case nfo folder of
              None \<Rightarrow> Inl AttributeError
            | Some n \<Rightarrow> bindE (year n) (\<lambda>y. Inr (tmdb n, imdb n, title n, y))))"

definition get_Trailer ::
  "'w collab \<Rightarrow> string \<Rightarrow> string option \<Rightarrow> string option \<Rightarrow> string option \<Rightarrow> string option
     \<Rightarrow> stats \<times> 'w \<Rightarrow> (error + terminal) \<times> stats \<times> 'w \<times> (source \<times> string \<times> bool) list" where
  "get_Trailer c movieDir tmdbid imdbid title_arg year_arg sw =
     (case sw of (s, w) \<Rightarrow>
      (let env = fs_of c w
       in if \<not> isdir env (abspath env movieDir) then (Inr SkippedInvalidPath, s, w, [])
          else
            (case MovieFolder_init env movieDir of
               Inl e \<Rightarrow> (Inl e, s, w, [])
             | Inr folder \<Rightarrow>
                 if \<not> hasMovie folder then (Inr SkippedNoMovie, s, w, [])
                 else
                   (let s1 = s\<lparr>directoriesScanned := directoriesScanned s + 1\<rparr>
                    in if hasTrailer folder
                       then (Inr AlreadyPresent, s1\<lparr>trailersFound := trailersFound s1 + 1\<rparr>, w, [])
                       else
                         (case lookup_args folder tmdbid imdbid title_arg year_arg of
                            Inl e \<Rightarrow> (Inl e, s1, w, [])
                          | Inr (a_tmdb, a_imdb, a_title, a_year) \<Rightarrow>
                              (let w1 = get_movie_details c a_tmdb a_imdb a_title a_year w
                               in case getLinks c a_title a_year w1 of
                                    (appleLinks, w2) \<Rightarrow>
                                      (case get_trailer_links c w2 of
                                         (ytLinks, w3) \<Rightarrow>
                                           (case try_downloads c folder appleLinks ytLinks (s1, w3) of
                                              (t, s2, w4, calls) \<Rightarrow> (Inr t, s2, w4, calls)))))))))"

section \<open>Spec-side predicates and example inputs\<close>

text \<open>A top-level element that is a \<open>uniqueid\<close> (in any letter case) without a \<open>type\<close> attribute.\<close>

definition lacks_type :: "element \<Rightarrow> bool" where
  "lacks_type item = (py_lower (el_tag item) = ''uniqueid'' \<and> map_of (el_attrib item) ''type'' = None)"

text \<open>The kept sidecar record is absent or complete.\<close>

definition kept_ok :: "MovieFolder \<Rightarrow> bool" where
  "kept_ok self = (case nfo self of None \<Rightarrow> True | Some kept \<Rightarrow> is_complete kept = Inr True)"

text \<open>
  The entry \<open>name\<close> of the scanned folder is a sidecar file that parses to the complete
  record \<open>n\<close>.
\<close>

definition complete_candidate :: "fs \<Rightarrow> MovieFolder \<Rightarrow> string \<Rightarrow> NFO \<Rightarrow> bool" where
  "complete_candidate env self name n =
     (let path = path_join (rootDir self) name
      in isfile env path \<and> snd (splitext path) \<in> set NFO_EXTENSIONS
         \<and> NFO_init env path = Inr n \<and> is_complete n = Inr True)"


text \<open>
  A folder \<open>/m\<close> with the given file names, probe results and sidecar contents; a file's
  size is the length of its path.
\<close>

definition ex_fs ::
  "string list \<Rightarrow> (string \<times> pyfloat) list \<Rightarrow> (string \<times> element list) list \<Rightarrow> fs" where
  "ex_fs names durations sidecars =
     \<lparr>abspath = (\<lambda>p. p),
      isdir = (\<lambda>p. p = ''/m''),
      isfile = (\<lambda>p. p \<in> set (map (path_join ''/m'') names)),
      scandir = (\<lambda>p. if p = ''/m'' then names else []),
      listdir = (\<lambda>p. []),
      getsize = (\<lambda>p. length p),
      ffprobe = map_of durations,
      et_parse = (\<lambda>p. case map_of sidecars p of None \<Rightarrow> Unreadable | Some items \<Rightarrow> Root items)\<rparr>"

text \<open>
  A folder \<open>/m\<close> with the disc directory \<open>/m/BDMV\<close>, which holds \<open>index.bdmv\<close> and
  \<open>index-trailer.mp4\<close> (90 seconds), and the file \<open>/m/z.mkv\<close> (1800 seconds). Probing
  \<open>index.bdmv\<close> would report 5 seconds.
\<close>

definition ex_disc_fs :: "string list \<Rightarrow> fs" where
  "ex_disc_fs names =
     \<lparr>abspath = (\<lambda>p. p),
      isdir = (\<lambda>p. p = ''/m'' \<or> p = ''/m/BDMV''),
      isfile = (\<lambda>p. p = ''/m/BDMV/index.bdmv'' \<or> p = ''/m/BDMV/index-trailer.mp4'' \<or> p = ''/m/z.mkv''),
      scandir = (\<lambda>p. if p = ''/m'' then names else []),
      listdir = (\<lambda>p. if p = ''/m/BDMV'' then [''index.bdmv'', ''index-trailer.mp4''] else []),
      getsize = (\<lambda>p. length p),
      ffprobe = map_of [(''/m/BDMV/index.bdmv'', Num 5), (''/m/BDMV/index-trailer.mp4'', Num 90),
                        (''/m/z.mkv'', Num 1800)],
      et_parse = (\<lambda>p. Unreadable)\<rparr>"

text \<open>
  Collaborators over a one-point world: fixed link lists, and a download succeeds exactly
  for the links in \<open>good\<close>.
\<close>

definition ex_collab :: "fs \<Rightarrow> string list \<Rightarrow> string list \<Rightarrow> string list \<Rightarrow> unit collab" where
  "ex_collab env appleLinks ytLinks good =
     \<lparr>fs_of = (\<lambda>w. env),
      get_movie_details = (\<lambda>a b t y w. w),
      getLinks = (\<lambda>t y w. (appleLinks, w)),
      get_trailer_links = (\<lambda>w. (ytLinks, w)),
      downloadApple = (\<lambda>n d link w. (link \<in> set good, w)),
      downloadYouTube = (\<lambda>n d link w. (link \<in> set good, w))\<rparr>"

definition ex_empty_folder :: MovieFolder where
  "ex_empty_folder = \<lparr>rootDir = ''/m'', movie = None, trailer = None, nfo = None\<rparr>"

text \<open>
  The candidates in the order the claim gives them, and the two parts of a recorded
  download call.
\<close>

definition candidates :: "string list \<Rightarrow> string list \<Rightarrow> (source \<times> string) list" where
  "candidates appleLinks ytLinks = map (Pair Apple) appleLinks @ map (Pair YouTube) ytLinks"

definition attempt :: "source \<times> string \<times> bool \<Rightarrow> source \<times> string" where
  "attempt call = (fst call, fst (snd call))"

definition succeeded :: "source \<times> string \<times> bool \<Rightarrow> bool" where
  "succeeded call = snd (snd call)"

text \<open>
  The download collaborator as the loops of \<open>get_Trailer\<close> call it for a candidate of
  either source, with the folder's expected trailer name and directory.
\<close>

definition download_from :: "'w collab \<Rightarrow> MovieFolder \<Rightarrow> source \<times> string \<Rightarrow> 'w \<Rightarrow> bool \<times> 'w" where
  "download_from c folder candidate w =
     (case candidate of
        (Apple, link) \<Rightarrow> downloadApple c (trailerName folder) (trailerDirectory folder) link w
      | (YouTube, link) \<Rightarrow> downloadYouTube c (trailerName folder) (trailerDirectory folder) link w)"

text \<open>
  Running a downloader on every item of a list, one after the other, each in the world
  the previous one left: the results in order, and the world after the last.
\<close>

fun replay :: "('a \<Rightarrow> 'w \<Rightarrow> bool \<times> 'w) \<Rightarrow> 'a list \<Rightarrow> 'w \<Rightarrow> bool list \<times> 'w" where
  "replay download [] w = ([], w)"
| "replay download (x # xs) w =
     (case download x w of
        (ok, w1) \<Rightarrow> (case replay download xs w1 of (oks, w2) \<Rightarrow> (ok # oks, w2)))"

text \<open>
  Collaborators whose world counts the download calls made so far; a download succeeds
  exactly for the links in \<open>good\<close>.
\<close>

definition ex_counting_collab :: "string list \<Rightarrow> nat collab" where
  "ex_counting_collab good =
     \<lparr>fs_of = (\<lambda>w. ex_fs [] [] []),
      get_movie_details = (\<lambda>a b t y w. w),
      getLinks = (\<lambda>t y w. ([], w)),
      get_trailer_links = (\<lambda>w. ([], w)),
      downloadApple = (\<lambda>n d link w. (link \<in> set good, Suc w)),
      downloadYouTube = (\<lambda>n d link w. (link \<in> set good, Suc w))\<rparr>"


text \<open>The movie that a disc directory yields: its index file, with the forced duration.\<close>

definition index_video :: "string \<Rightarrow> Video" where
  "index_video path =
     \<lparr>v_path = path_join path ''index.bdmv'', duration = Num (MIN_MOVIE_DURATION + 1)\<rparr>"

text \<open>Scanning the entry at \<open>path\<close> never assigns the movie.\<close>

definition sets_no_movie :: "fs \<Rightarrow> string \<Rightarrow> bool" where
  "sets_no_movie env path = (\<forall>st st'. scan_item env st path = Inr st' \<longrightarrow> movie st' = movie st)"

text \<open>
  Three sidecars in \<open>/m\<close>: \<open>a.nfo\<close> (complete by its id, 8 bytes), \<open>bb.nfo\<close> (complete by
  title and year, 9 bytes) and \<open>cccc.xml\<close> (a title only, 11 bytes).
\<close>

definition ex_sidecar_fs :: fs where
  "ex_sidecar_fs =
     ex_fs [''a.nfo'', ''bb.nfo'', ''cccc.xml''] []
       [(''/m/a.nfo'', [\<lparr>el_tag = ''imdb'', el_attrib = [], el_text = Some ''tt0113277''\<rparr>]),
        (''/m/bb.nfo'', [\<lparr>el_tag = ''title'', el_attrib = [], el_text = Some ''Heat''\<rparr>,
                         \<lparr>el_tag = ''year'', el_attrib = [], el_text = Some ''1995''\<rparr>]),
        (''/m/cccc.xml'', [\<lparr>el_tag = ''title'', el_attrib = [], el_text = Some ''Heat''\<rparr>])]"

definition ex_a_nfo :: NFO where
  "ex_a_nfo = (NFO_fields_unset ''/m/a.nfo'')\<lparr>raw_imdb := Some ''tt0113277''\<rparr>"

definition ex_bb_nfo :: NFO where
  "ex_bb_nfo = (NFO_fields_unset ''/m/bb.nfo'')\<lparr>raw_title := Some ''Heat'', raw_year := Some ''1995''\<rparr>"


section \<open>The orchestrator on a folder without a sidecar\<close>

text \<open>
  Claim C1. A folder holding only \<open>movie.mkv\<close> (1800 seconds), no sidecar, no trailer, no
  overrides, both collaborators returning empty lists: the claim expects the not-found
  state with scanned + 1. The code increments \<open>directoriesScanned\<close> and then evaluates
  \<open>folder.nfo.tmdb\<close> with \<open>folder.nfo\<close> being \<open>None\<close>: \<open>AttributeError\<close> escapes, before
  any collaborator is called.
\<close>

theorem get_Trailer_no_sidecar_raises:
  "get_Trailer (ex_collab (ex_fs [''movie.mkv''] [(''/m/movie.mkv'', Num 1800)] []) [] [] [])
     ''/m'' None None None None (TrailerTech_init, ())
   = (Inl AttributeError,
      \<lparr>directoriesScanned = 1, trailersDownloaded = 0, trailersFound = 0\<rparr>, (), [])"
  by code_simp

section \<open>Release dates and the year\<close>

text \<open>
  Claim C2. A four-digit value is returned unchanged, but a full year-month-day date yields
  no year: \<open>datetime\<close> is not imported, the \<open>NameError\<close> is swallowed by the bare
  \<open>except\<close>, and \<open>__parse_releaseDate\<close> returns \<open>None\<close>.
\<close>

theorem parse_releaseDate_full_date_lost:
  "parse_releaseDate (PyStr ''2019-05-17'') = Inr None
   \<and> parse_releaseDate (PyStr ''2019'') = Inr (Some ''2019'')"
  by code_simp

text \<open>
  Claim C3. A sidecar whose only entry is \<open>release_date\<close> 2019: the \<open>year\<close> property
  reaches its second branch, hands the bound method to \<open>__parse_releaseDate\<close>, and raises
  \<open>TypeError\<close> instead of returning 2019.
\<close>

theorem year_release_date_raises:
  "bindE (parse_items (NFO_fields_unset ''/m/movie.nfo'')
            [\<lparr>el_tag = ''release_date'', el_attrib = [], el_text = Some ''2019''\<rparr>]) year
   = Inl TypeError"
  by code_simp

section \<open>Sidecar parsing and the id accessors\<close>

lemma parse_releaseDate_of_opt: "\<exists>v. parse_releaseDate (of_opt t) = Inr v"
  by (cases t) (simp_all add: parse_releaseDate_def of_opt_def strptime_year_def)

lemma parse_item_lacks_type: "lacks_type item \<Longrightarrow> parse_item r item = Inl KeyError"
  by (simp add: lacks_type_def parse_item_def)

lemma parse_item_has_type: "\<not> lacks_type item \<Longrightarrow> \<exists>r'. parse_item r item = Inr r'"
  using parse_releaseDate_of_opt [of "el_text item"]
  by (auto simp add: lacks_type_def parse_item_def bindE_def Let_def split: option.splits)

lemma parse_items_lacks_type:
  "\<exists>item\<in>set items. lacks_type item \<Longrightarrow> parse_items r items = Inl KeyError"
proof (induction items arbitrary: r)
  case Nil
  then show ?case by simp
next
  case (Cons item items)
  show ?case
  proof (cases "lacks_type item")
    case True
    then show ?thesis by (simp add: parse_item_lacks_type bindE_def)
  next
    case False
    then obtain r' where r': "parse_item r item = Inr r'"
      using parse_item_has_type by blast
    from False Cons.prems have "\<exists>i\<in>set items. lacks_type i" by auto
    then have "parse_items r' items = Inl KeyError" by (rule Cons.IH)
    with r' show ?thesis by (simp add: bindE_def)
  qed
qed

lemma parse_items_all_typed:
  "\<forall>item\<in>set items. \<not> lacks_type item \<Longrightarrow> \<exists>r'. parse_items r items = Inr r'"
proof (induction items arbitrary: r)
  case Nil
  then show ?case by simp
next
  case (Cons item items)
  then obtain r' where r': "parse_item r item = Inr r'"
    using parse_item_has_type by (metis list.set_intros(1))
  from Cons.prems have "\<forall>i\<in>set items. \<not> lacks_type i" by simp
  then obtain r'' where "parse_items r' items = Inr r''" using Cons.IH by blast
  with r' show ?case by (simp add: bindE_def)
qed

text \<open>
  Claim C10. When the XML parses and some top-level \<open>uniqueid\<close> element has no \<open>type\<close>
  attribute, constructing the record raises \<open>KeyError\<close>; when every \<open>uniqueid\<close> element
  has one, a record is returned; an unreadable or malformed file yields the record with
  all fields unset. So the recovery covers the two parse failures and nothing else.
\<close>

theorem uniqueid_without_type_raises_KeyError:
  "(et_parse env path = Root items \<and> (\<exists>item\<in>set items. lacks_type item)
      \<longrightarrow> NFO_init env path = Inl KeyError)
   \<and> (et_parse env path = Root items \<and> (\<forall>item\<in>set items. \<not> lacks_type item)
      \<longrightarrow> (\<exists>r. NFO_init env path = Inr r))
   \<and> (et_parse env path = Unreadable \<or> et_parse env path = Malformed
      \<longrightarrow> NFO_init env path = Inr (NFO_fields_unset path))"
proof (intro conjI impI)
  assume "et_parse env path = Root items \<and> (\<exists>item\<in>set items. lacks_type item)"
  then show "NFO_init env path = Inl KeyError"
    by (simp add: NFO_init_def parse_nfo_def NFO_fields_unset_def parse_items_lacks_type)
next
  assume "et_parse env path = Root items \<and> (\<forall>item\<in>set items. \<not> lacks_type item)"
  then show "\<exists>r. NFO_init env path = Inr r"
    using parse_items_all_typed [of items "NFO_fields_unset path"]
    by (simp add: NFO_init_def parse_nfo_def NFO_fields_unset_def)
next
  assume "et_parse env path = Unreadable \<or> et_parse env path = Malformed"
  then show "NFO_init env path = Inr (NFO_fields_unset path)"
    by (auto simp add: NFO_init_def parse_nfo_def NFO_fields_unset_def)
qed

theorem uniqueid_without_type_witness:
  "NFO_init (ex_fs [''movie.nfo''] []
       [(''/m/movie.nfo'',
         [\<lparr>el_tag = ''title'', el_attrib = [], el_text = Some ''Heat''\<rparr>,
          \<lparr>el_tag = ''UniqueId'', el_attrib = [(''default'', ''true'')],
             el_text = Some ''tt0113277''\<rparr>])])
     ''/m/movie.nfo'' = Inl KeyError
   \<and> (\<exists>r. NFO_init ex_sidecar_fs ''/m/a.nfo'' = Inr r)
   \<and> NFO_init (ex_fs [''movie.nfo''] [] []) ''/m/movie.nfo''
       = Inr (NFO_fields_unset ''/m/movie.nfo'')"
proof -
  let ?items = "[\<lparr>el_tag = ''title'', el_attrib = [], el_text = Some ''Heat''\<rparr>,
                 \<lparr>el_tag = ''UniqueId'', el_attrib = [(''default'', ''true'')],
                    el_text = Some ''tt0113277''\<rparr>]"
  let ?env = "ex_fs [''movie.nfo''] [] [(''/m/movie.nfo'', ?items)]"
  let ?a = "[\<lparr>el_tag = ''imdb'', el_attrib = [], el_text = Some ''tt0113277''\<rparr>]"
  have a: "et_parse ?env ''/m/movie.nfo'' = Root ?items \<and> (\<exists>item\<in>set ?items. lacks_type item)"
    by code_simp
  have b: "et_parse (ex_fs [''movie.nfo''] [] []) ''/m/movie.nfo'' = Unreadable
           \<or> et_parse (ex_fs [''movie.nfo''] [] []) ''/m/movie.nfo'' = Malformed"
    by code_simp
  have c: "et_parse ex_sidecar_fs ''/m/a.nfo'' = Root ?a \<and> (\<forall>item\<in>set ?a. \<not> lacks_type item)"
    by code_simp
  show ?thesis
    using uniqueid_without_type_raises_KeyError [of ?env "''/m/movie.nfo''" ?items] a
      uniqueid_without_type_raises_KeyError [of "ex_fs [''movie.nfo''] [] []" "''/m/movie.nfo''" "[]"] b
      uniqueid_without_type_raises_KeyError [of ex_sidecar_fs "''/m/a.nfo''" ?a] c
    by blast
qed

text \<open>
  Claim C6. The textual-id and the numeric-id accessor return only a value that matches
  the accessor's pattern, taken from one of its three raw sources; a raw value that fails
  the pattern counts as absent, so the accessor moves on to the next source, and with no
  source left it returns \<open>None\<close>.
\<close>

theorem id_accessors_pattern_valid:
  "(imdb r = Some v \<longrightarrow>
      re_match IMDB_ID_PATTERN v \<and> Some v \<in> {raw_unique_id_imdb r, raw_imdb r, raw_id r})
   \<and> (tmdb r = Some v \<longrightarrow>
      re_match TMDB_ID_PATTERN v \<and> Some v \<in> {raw_unique_id_tmdb r, raw_tmdb r, raw_id r})
   \<and> (raw_unique_id_imdb r = Some x \<and> \<not> re_match IMDB_ID_PATTERN x \<longrightarrow>
      imdb r = imdb (r\<lparr>raw_unique_id_imdb := None\<rparr>))
   \<and> (raw_imdb r = Some x \<and> \<not> re_match IMDB_ID_PATTERN x \<longrightarrow>
      imdb r = imdb (r\<lparr>raw_imdb := None\<rparr>))
   \<and> (raw_id r = Some x \<and> \<not> re_match IMDB_ID_PATTERN x \<longrightarrow>
      imdb r = imdb (r\<lparr>raw_id := None\<rparr>))
   \<and> (raw_unique_id_tmdb r = Some x \<and> \<not> re_match TMDB_ID_PATTERN x \<longrightarrow>
      tmdb r = tmdb (r\<lparr>raw_unique_id_tmdb := None\<rparr>))
   \<and> (raw_tmdb r = Some x \<and> \<not> re_match TMDB_ID_PATTERN x \<longrightarrow>
      tmdb r = tmdb (r\<lparr>raw_tmdb := None\<rparr>))
   \<and> (raw_id r = Some x \<and> \<not> re_match TMDB_ID_PATTERN x \<longrightarrow>
      tmdb r = tmdb (r\<lparr>raw_id := None\<rparr>))
   \<and> imdb (r\<lparr>raw_unique_id_imdb := None, raw_imdb := None, raw_id := None\<rparr>) = None
   \<and> tmdb (r\<lparr>raw_unique_id_tmdb := None, raw_tmdb := None, raw_id := None\<rparr>) = None"
  by (auto simp add: imdb_def tmdb_def valid_def split: if_splits option.splits)

theorem id_accessors_witness:
  "imdb ((NFO_fields_unset ''/m/a.nfo'')
            \<lparr>raw_unique_id_imdb := Some ''0113277'', raw_imdb := Some ''tt0113277''\<rparr>)
     = Some ''tt0113277''
   \<and> re_match IMDB_ID_PATTERN ''tt0113277''
   \<and> imdb ((NFO_fields_unset ''/m/a.nfo'')
            \<lparr>raw_unique_id_imdb := Some ''0113277'', raw_imdb := Some ''tt0113277''\<rparr>)
     = imdb ((NFO_fields_unset ''/m/a.nfo'')
            \<lparr>raw_unique_id_imdb := Some ''0113277'', raw_imdb := Some ''tt0113277'',
              raw_unique_id_imdb := None\<rparr>)
   \<and> tmdb ((NFO_fields_unset ''/m/a.nfo'')
            \<lparr>raw_unique_id_tmdb := Some ''0949'', raw_tmdb := Some ''949''\<rparr>)
     = Some ''949''
   \<and> re_match TMDB_ID_PATTERN ''949''"
proof -
  let ?r = "(NFO_fields_unset ''/m/a.nfo'')
              \<lparr>raw_unique_id_imdb := Some ''0113277'', raw_imdb := Some ''tt0113277''\<rparr>"
  let ?q = "(NFO_fields_unset ''/m/a.nfo'')
              \<lparr>raw_unique_id_tmdb := Some ''0949'', raw_tmdb := Some ''949''\<rparr>"
  have a: "imdb ?r = Some ''tt0113277''" by code_simp
  have b: "raw_unique_id_imdb ?r = Some ''0113277'' \<and> \<not> re_match IMDB_ID_PATTERN ''0113277''"
    by code_simp
  have c: "tmdb ?q = Some ''949''" by code_simp
  show ?thesis
    using id_accessors_pattern_valid [of ?r "''tt0113277''" "''0113277''"] a b
      id_accessors_pattern_valid [of ?q "''949''" "''0949''"] c
    by blast
qed

section \<open>Choosing the sidecar record\<close>

lemma nfo_ext_not_video: "ext \<in> set NFO_EXTENSIONS \<Longrightarrow> ext \<notin> set VIDEO_EXTENSIONS"
  by (auto simp add: NFO_EXTENSIONS_def VIDEO_EXTENSIONS_def)

lemma disc_trailers_keeps:
  "nfo (disc_trailers env dir marker entries self) = nfo self
   \<and> rootDir (disc_trailers env dir marker entries self) = rootDir self
   \<and> movie (disc_trailers env dir marker entries self) = movie self"
  by (induction entries arbitrary: self) (simp_all add: Let_def)

lemma keep_nfo_incomplete: "is_complete n = Inr False \<Longrightarrow> keep_nfo env self n = Inr self"
  by (simp add: keep_nfo_def bindE_def split: option.splits)

lemma keep_nfo_first:
  "is_complete n = Inr True \<Longrightarrow> nfo self = None \<Longrightarrow>
   keep_nfo env self n = Inr (self\<lparr>nfo := Some n\<rparr>)"
  by (simp add: keep_nfo_def bindE_def)

lemma keep_nfo_larger:
  "is_complete n = Inr True \<Longrightarrow> nfo self = Some kept \<Longrightarrow>
   keep_nfo env self n
     = Inr (if fileSize env (nfo_path kept) < fileSize env (nfo_path n)
            then self\<lparr>nfo := Some n\<rparr> else self)"
  by (simp add: keep_nfo_def bindE_def)

lemma keep_nfo_result:
  assumes "keep_nfo env self n = Inr self'"
  shows "rootDir self' = rootDir self
       \<and> (nfo self' = nfo self
          \<or> (nfo self' = Some n \<and> is_complete n = Inr True
             \<and> (\<forall>kept. nfo self = Some kept \<longrightarrow>
                   fileSize env (nfo_path kept) < fileSize env (nfo_path n))))"
proof (cases "is_complete n")
  case (Inl e)
  with assms show ?thesis by (simp add: keep_nfo_def bindE_def)
next
  case (Inr b)
  with assms show ?thesis
    by (cases b; cases "nfo self") (auto simp add: keep_nfo_def bindE_def split: if_splits)
qed

lemma scan_item_nfo:
  assumes "scan_item env self path = Inr self'"
  shows "rootDir self' = rootDir self
       \<and> (nfo self' = nfo self
          \<or> (\<exists>n. nfo self' = Some n \<and> is_complete n = Inr True
               \<and> (\<forall>kept. nfo self = Some kept \<longrightarrow>
                     fileSize env (nfo_path kept) < fileSize env (nfo_path n))))"
proof (cases "isfile env path \<and> snd (splitext path) \<in> set NFO_EXTENSIONS")
  case True
  with assms obtain n where "NFO_init env path = Inr n" "keep_nfo env self n = Inr self'"
    by (cases "NFO_init env path")
      (auto simp add: scan_item_def bindE_def Let_def nfo_ext_not_video)
  then show ?thesis using keep_nfo_result by blast
next
  case False
  with assms show ?thesis
    by (auto simp add: scan_item_def Let_def disc_trailers_keeps split: if_splits)
qed

lemma scan_item_candidate:
  assumes "scan_item env self path = Inr self'"
    and "isfile env path" and "snd (splitext path) \<in> set NFO_EXTENSIONS"
    and "NFO_init env path = Inr n" and "is_complete n = Inr True"
  shows "\<exists>kept. nfo self' = Some kept \<and> fileSize env (nfo_path n) \<le> fileSize env (nfo_path kept)"
proof -
  from assms have k: "keep_nfo env self n = Inr self'"
    by (simp add: scan_item_def bindE_def Let_def nfo_ext_not_video)
  show ?thesis
  proof (cases "nfo self")
    case None
    with k assms(5) show ?thesis by (auto simp add: keep_nfo_first)
  next
    case (Some kept)
    with k assms(5) show ?thesis by (auto simp add: keep_nfo_larger split: if_splits)
  qed
qed

lemma scan_items_rootDir: "scan_items env self names = Inr self' \<Longrightarrow> rootDir self' = rootDir self"
proof (induction names arbitrary: self)
  case Nil
  then show ?case by simp
next
  case (Cons name names)
  then obtain mid where m: "scan_item env self (path_join (rootDir self) name) = Inr mid"
    "scan_items env mid names = Inr self'"
    by (cases "scan_item env self (path_join (rootDir self) name)") (auto simp add: bindE_def)
  with Cons.IH [OF m(2)] scan_item_nfo [OF m(1)] show ?case by simp
qed

lemma scan_items_kept_ok:
  "kept_ok self \<Longrightarrow> scan_items env self names = Inr self' \<Longrightarrow> kept_ok self'"
proof (induction names arbitrary: self)
  case Nil
  then show ?case by simp
next
  case (Cons name names)
  then obtain mid where m: "scan_item env self (path_join (rootDir self) name) = Inr mid"
    "scan_items env mid names = Inr self'"
    by (cases "scan_item env self (path_join (rootDir self) name)") (auto simp add: bindE_def)
  from scan_item_nfo [OF m(1)] Cons.prems(1) have "kept_ok mid"
    by (auto simp add: kept_ok_def)
  then show ?case using m(2) by (rule Cons.IH)
qed

lemma scan_items_kept_grows:
  "nfo self = Some kept \<Longrightarrow> scan_items env self names = Inr self' \<Longrightarrow>
   \<exists>kept'. nfo self' = Some kept' \<and> fileSize env (nfo_path kept) \<le> fileSize env (nfo_path kept')"
proof (induction names arbitrary: self kept)
  case Nil
  then show ?case by simp
next
  case (Cons name names)
  then obtain mid where m: "scan_item env self (path_join (rootDir self) name) = Inr mid"
    "scan_items env mid names = Inr self'"
    by (cases "scan_item env self (path_join (rootDir self) name)") (auto simp add: bindE_def)
  from scan_item_nfo [OF m(1)] Cons.prems(1)
  obtain k1 where k1: "nfo mid = Some k1" "fileSize env (nfo_path kept) \<le> fileSize env (nfo_path k1)"
    by (auto intro: less_imp_le)
  from Cons.IH [OF k1(1) m(2)] k1(2) show ?case by (auto intro: order_trans)
qed

lemma scan_items_candidate:
  "name \<in> set names \<Longrightarrow> complete_candidate env self name n \<Longrightarrow>
   scan_items env self names = Inr self' \<Longrightarrow>
   \<exists>kept. nfo self' = Some kept \<and> fileSize env (nfo_path n) \<le> fileSize env (nfo_path kept)"
proof (induction names arbitrary: self)
  case Nil
  then show ?case by simp
next
  case (Cons x names)
  then obtain mid where m: "scan_item env self (path_join (rootDir self) x) = Inr mid"
    "scan_items env mid names = Inr self'"
    by (cases "scan_item env self (path_join (rootDir self) x)") (auto simp add: bindE_def)
  have root: "rootDir mid = rootDir self" using scan_item_nfo [OF m(1)] by simp
  show ?case
  proof (cases "x = name")
    case True
    with Cons.prems(2) m(1) obtain k1 where k1: "nfo mid = Some k1"
      "fileSize env (nfo_path n) \<le> fileSize env (nfo_path k1)"
      using scan_item_candidate [of env self "path_join (rootDir self) name" mid n]
      by (auto simp add: complete_candidate_def Let_def)
    from scan_items_kept_grows [OF k1(1) m(2)] k1(2) show ?thesis by (auto intro: order_trans)
  next
    case False
    with Cons.prems(1) have "name \<in> set names" by simp
    moreover from Cons.prems(2) root have "complete_candidate env mid name n"
      by (simp add: complete_candidate_def)
    ultimately show ?thesis using m(2) by (rule Cons.IH)
  qed
qed

text \<open>
  Claim C5. Start a scan with no kept record (or a complete one) and let it get through
  the entries \<open>names\<close>. Then the kept record is absent or complete; if any entry was a
  sidecar that parses to a complete record, a record is kept, it is complete, and it is
  at least as large as that candidate. For the next candidate \<open>n\<close> after these entries:
  an incomplete \<open>n\<close> changes nothing; a complete \<open>n\<close> is kept when nothing was kept,
  whatever its size; and when a record is kept (it is complete), a complete \<open>n\<close>
  replaces it exactly when the file of \<open>n\<close> is strictly larger.
\<close>

theorem kept_sidecar_is_complete_and_largest:
  assumes "kept_ok self" and "scan_items env self names = Inr self'"
  shows "kept_ok self'
       \<and> (\<forall>name\<in>set names. \<forall>n. complete_candidate env self name n \<longrightarrow>
            (\<exists>kept. nfo self' = Some kept \<and> is_complete kept = Inr True
                \<and> fileSize env (nfo_path n) \<le> fileSize env (nfo_path kept)))
       \<and> (\<forall>n. is_complete n = Inr False \<longrightarrow> keep_nfo env self' n = Inr self')
       \<and> (\<forall>n. is_complete n = Inr True \<and> nfo self' = None \<longrightarrow>
            keep_nfo env self' n = Inr (self'\<lparr>nfo := Some n\<rparr>))
       \<and> (\<forall>n kept. is_complete n = Inr True \<and> nfo self' = Some kept \<longrightarrow>
            is_complete kept = Inr True
            \<and> keep_nfo env self' n
                = Inr (if fileSize env (nfo_path kept) < fileSize env (nfo_path n)
                       then self'\<lparr>nfo := Some n\<rparr> else self'))"
proof -
  have ok: "kept_ok self'" using assms by (rule scan_items_kept_ok)
  have "\<exists>kept. nfo self' = Some kept \<and> is_complete kept = Inr True
                \<and> fileSize env (nfo_path n) \<le> fileSize env (nfo_path kept)"
    if "name \<in> set names" "complete_candidate env self name n" for name n
  proof -
    from scan_items_candidate [OF that assms(2)] obtain kept where
      "nfo self' = Some kept" "fileSize env (nfo_path n) \<le> fileSize env (nfo_path kept)" by blast
    with ok show ?thesis by (simp add: kept_ok_def)
  qed
  moreover have "is_complete kept = Inr True" if "nfo self' = Some kept" for kept
    using ok that by (simp add: kept_ok_def)
  ultimately show ?thesis
    using ok by (simp add: keep_nfo_incomplete keep_nfo_first keep_nfo_larger)
qed

theorem kept_sidecar_witness:
  "kept_ok ex_empty_folder
   \<and> scan_items ex_sidecar_fs ex_empty_folder [''a.nfo'', ''bb.nfo'', ''cccc.xml'']
       = Inr (ex_empty_folder\<lparr>nfo := Some ex_bb_nfo\<rparr>)
   \<and> complete_candidate ex_sidecar_fs ex_empty_folder ''a.nfo'' ex_a_nfo
   \<and> kept_ok (ex_empty_folder\<lparr>nfo := Some ex_bb_nfo\<rparr>)
   \<and> is_complete ex_bb_nfo = Inr True
   \<and> fileSize ex_sidecar_fs (nfo_path ex_a_nfo) \<le> fileSize ex_sidecar_fs (nfo_path ex_bb_nfo)
   \<and> keep_nfo ex_sidecar_fs (ex_empty_folder\<lparr>nfo := Some ex_bb_nfo\<rparr>) ex_a_nfo
       = Inr (ex_empty_folder\<lparr>nfo := Some ex_bb_nfo\<rparr>)"
proof -
  let ?names = "[''a.nfo'', ''bb.nfo'', ''cccc.xml'']"
  let ?end = "ex_empty_folder\<lparr>nfo := Some ex_bb_nfo\<rparr>"
  have ok: "kept_ok ex_empty_folder" by code_simp
  have run: "scan_items ex_sidecar_fs ex_empty_folder ?names = Inr ?end" by code_simp
  have cand: "complete_candidate ex_sidecar_fs ex_empty_folder ''a.nfo'' ex_a_nfo" by code_simp
  have a: "is_complete ex_a_nfo = Inr True" by code_simp
  have kept: "nfo ?end = Some ex_bb_nfo" by simp
  have small: "\<not> fileSize ex_sidecar_fs (nfo_path ex_bb_nfo) < fileSize ex_sidecar_fs (nfo_path ex_a_nfo)"
    by code_simp
  note t = kept_sidecar_is_complete_and_largest [OF ok run]
  from t have 1: "kept_ok ?end" by blast
  from t cand have "\<exists>k. nfo ?end = Some k \<and> is_complete k = Inr True
      \<and> fileSize ex_sidecar_fs (nfo_path ex_a_nfo) \<le> fileSize ex_sidecar_fs (nfo_path k)"
    by simp
  then have 2: "is_complete ex_bb_nfo = Inr True"
    "fileSize ex_sidecar_fs (nfo_path ex_a_nfo) \<le> fileSize ex_sidecar_fs (nfo_path ex_bb_nfo)"
    by simp_all
  from t a kept have "keep_nfo ex_sidecar_fs ?end ex_a_nfo
      = Inr (if fileSize ex_sidecar_fs (nfo_path ex_bb_nfo) < fileSize ex_sidecar_fs (nfo_path ex_a_nfo)
             then ?end\<lparr>nfo := Some ex_a_nfo\<rparr> else ?end)"
    by blast
  with small have 3: "keep_nfo ex_sidecar_fs ?end ex_a_nfo = Inr ?end" by simp
  show ?thesis using ok run cand 1 2 3 by blast
qed

section \<open>The download loops\<close>

lemma try_links_shape:
  "try_links download links w = (hit, calls, w') \<Longrightarrow>
   (hit \<longrightarrow> (\<exists>n<length links. map fst calls = take (Suc n) links
                 \<and> map snd calls = replicate n False @ [True]))
   \<and> (\<not> hit \<longrightarrow> map fst calls = links \<and> map snd calls = replicate (length links) False)"
proof (induction links arbitrary: w hit calls w')
  case Nil
  then show ?case by simp
next
  case (Cons link links)
  obtain ok w1 where d: "download link w = (ok, w1)" by (cases "download link w")
  show ?case
  proof (cases ok)
    case True
    with d Cons.prems have "hit" "calls = [(link, True)]" by simp_all
    then show ?thesis by auto
  next
    case False
    obtain done2 calls2 w2 where r: "try_links download links w1 = (done2, calls2, w2)"
      by (cases "try_links download links w1")
    with d False Cons.prems have eq: "hit = done2" "calls = (link, False) # calls2" by simp_all
    note ih = Cons.IH [OF r]
    show ?thesis
    proof (cases done2)
      case True
      with ih obtain n where n: "n < length links" "map fst calls2 = take (Suc n) links"
        "map snd calls2 = replicate n False @ [True]" by blast
      then have "Suc n < length (link # links)" "map fst calls = take (Suc (Suc n)) (link # links)"
        "map snd calls = replicate (Suc n) False @ [True]" using eq by simp_all
      with True eq show ?thesis by blast
    next
      case False
      with ih eq show ?thesis by simp
    qed
  qed
qed

lemma map_attempt_Pair: "map attempt (map (Pair src) calls) = map (Pair src) (map fst calls)"
  by (simp add: attempt_def)

lemma map_succeeded_Pair: "map succeeded (map (Pair src) calls) = map snd calls"
  by (simp add: succeeded_def)

lemma try_links_replay:
  "try_links download links w = (hit, calls, w') \<Longrightarrow>
   replay download (map fst calls) w = (map snd calls, w')"
proof (induction links arbitrary: w hit calls w')
  case Nil
  then show ?case by simp
next
  case (Cons link links)
  obtain ok w1 where d: "download link w = (ok, w1)" by (cases "download link w")
  show ?case
  proof (cases ok)
    case True
    with d Cons.prems show ?thesis by auto
  next
    case False
    obtain hit2 calls2 w2 where r: "try_links download links w1 = (hit2, calls2, w2)"
      by (cases "try_links download links w1")
    with d False Cons.prems have eq: "calls = (link, False) # calls2" "w' = w2" by simp_all
    from Cons.IH [OF r] d False eq show ?thesis by simp
  qed
qed

lemma replay_append:
  "replay download xs w = (oks1, w1) \<Longrightarrow> replay download ys w1 = (oks2, w2) \<Longrightarrow>
   replay download (xs @ ys) w = (oks1 @ oks2, w2)"
proof (induction xs arbitrary: w oks1)
  case Nil
  then show ?case by simp
next
  case (Cons x xs)
  obtain ok wa where d: "download x w = (ok, wa)" by (cases "download x w")
  obtain oks wb where r: "replay download xs wa = (oks, wb)" by (cases "replay download xs wa")
  with d Cons.prems(1) have eq: "oks1 = ok # oks" "w1 = wb" by simp_all
  from r eq have r': "replay download xs wa = (oks, w1)" by simp
  from Cons.IH [OF r' Cons.prems(2)] have "replay download (xs @ ys) wa = (oks @ oks2, w2)" .
  with d eq show ?case by simp
qed

lemma replay_Apple:
  "replay (download_from c folder) (map (Pair Apple) links) w
     = replay (downloadApple c (trailerName folder) (trailerDirectory folder)) links w"
  by (induction links arbitrary: w) (simp_all add: download_from_def)

lemma replay_YouTube:
  "replay (download_from c folder) (map (Pair YouTube) links) w
     = replay (downloadYouTube c (trailerName folder) (trailerDirectory folder)) links w"
  by (induction links arbitrary: w) (simp_all add: download_from_def)

lemma try_downloads_replay:
  assumes "try_downloads c folder appleLinks ytLinks (s, w) = (t, s', w', calls)"
  shows "replay (download_from c folder) (map attempt calls) w = (map succeeded calls, w')"
proof -
  let ?dA = "downloadApple c (trailerName folder) (trailerDirectory folder)"
  let ?dY = "downloadYouTube c (trailerName folder) (trailerDirectory folder)"
  obtain d1 calls1 w1 where r1: "try_links ?dA appleLinks w = (d1, calls1, w1)"
    by (cases "try_links ?dA appleLinks w")
  have p1: "replay (download_from c folder) (map (Pair Apple) (map fst calls1)) w
      = (map snd calls1, w1)"
    using try_links_replay [OF r1] by (simp only: replay_Apple)
  show ?thesis
  proof (cases d1)
    case True
    with r1 assms have calls: "calls = map (Pair Apple) calls1" and w: "w' = w1"
      by (simp_all add: try_downloads_def)
    show ?thesis
      using p1 by (simp only: calls w map_attempt_Pair map_succeeded_Pair)
  next
    case False
    obtain d2 calls2 w2 where r2: "try_links ?dY ytLinks w1 = (d2, calls2, w2)"
      by (cases "try_links ?dY ytLinks w1")
    from False r1 r2 assms
    have calls: "calls = map (Pair Apple) calls1 @ map (Pair YouTube) calls2" and w: "w' = w2"
      by (cases d2; simp add: try_downloads_def)+
    have p2: "replay (download_from c folder) (map (Pair YouTube) (map fst calls2)) w1
        = (map snd calls2, w2)"
      using try_links_replay [OF r2] by (simp only: replay_YouTube)
    from replay_append [OF p1 p2] show ?thesis
      by (simp only: calls w map_append map_attempt_Pair map_succeeded_Pair)
  qed
qed

text \<open>
  Claim C8. The download calls made are an initial segment of the candidates, the
  scraper's links in their order followed by the catalog's in theirs. Either the last
  call made is the only one that succeeded, the outcome is Downloaded and the downloaded
  counter went up by one, with every candidate after that call left untried; or every
  candidate was tried and failed, the outcome is NotFound and the counters are unchanged.
  The recorded calls are what the download collaborator did: running it on exactly the
  recorded candidates, in order, from the world the loops started in, gives exactly the
  recorded results and the world the loops end in, so no download beyond them took place.
\<close>

theorem downloads_in_order_until_first_success:
  assumes "try_downloads c folder appleLinks ytLinks (s, w) = (t, s', w', calls)"
  shows "(t = Downloaded \<or> t = NotFound)
       \<and> (t = Downloaded \<longrightarrow>
            (\<exists>n<length (candidates appleLinks ytLinks).
               map attempt calls = take (Suc n) (candidates appleLinks ytLinks)
               \<and> map succeeded calls = replicate n False @ [True])
            \<and> s' = s\<lparr>trailersDownloaded := trailersDownloaded s + 1\<rparr>)
       \<and> (t = NotFound \<longrightarrow>
            map attempt calls = candidates appleLinks ytLinks
            \<and> map succeeded calls = replicate (length (candidates appleLinks ytLinks)) False
            \<and> s' = s)
       \<and> replay (download_from c folder) (map attempt calls) w = (map succeeded calls, w')"
proof -
  have shape: "(t = Downloaded \<or> t = NotFound)
       \<and> (t = Downloaded \<longrightarrow>
            (\<exists>n<length (candidates appleLinks ytLinks).
               map attempt calls = take (Suc n) (candidates appleLinks ytLinks)
               \<and> map succeeded calls = replicate n False @ [True])
            \<and> s' = s\<lparr>trailersDownloaded := trailersDownloaded s + 1\<rparr>)
       \<and> (t = NotFound \<longrightarrow>
            map attempt calls = candidates appleLinks ytLinks
            \<and> map succeeded calls = replicate (length (candidates appleLinks ytLinks)) False
            \<and> s' = s)"
  proof -
    let ?dA = "downloadApple c (trailerName folder) (trailerDirectory folder)"
    let ?dY = "downloadYouTube c (trailerName folder) (trailerDirectory folder)"
    obtain d1 calls1 w1 where r1: "try_links ?dA appleLinks w = (d1, calls1, w1)"
      by (cases "try_links ?dA appleLinks w")
    note s1 = try_links_shape [OF r1]
    show ?thesis
    proof (cases d1)
      case True
      with r1 assms have eq: "t = Downloaded" "s' = s\<lparr>trailersDownloaded := trailersDownloaded s + 1\<rparr>"
        and calls: "calls = map (Pair Apple) calls1" by (simp_all add: try_downloads_def)
      from True s1 obtain n where n: "n < length appleLinks"
        and f: "map fst calls1 = take (Suc n) appleLinks"
        and o: "map snd calls1 = replicate n False @ [True]" by blast
      have "n < length (candidates appleLinks ytLinks)" using n by (simp add: candidates_def)
      moreover have "map attempt calls = map (Pair Apple) (take (Suc n) appleLinks)"
        by (simp only: calls map_attempt_Pair f)
      then have "map attempt calls = take (Suc n) (candidates appleLinks ytLinks)"
        using n by (simp add: candidates_def take_map)
      moreover have "map succeeded calls = replicate n False @ [True]"
        by (simp only: calls map_succeeded_Pair o)
      ultimately show ?thesis using eq by blast
    next
      case False
      with s1 have f1: "map fst calls1 = appleLinks"
        and o1: "map snd calls1 = replicate (length appleLinks) False" by simp_all
      obtain d2 calls2 w2 where r2: "try_links ?dY ytLinks w1 = (d2, calls2, w2)"
        by (cases "try_links ?dY ytLinks w1")
      note s2 = try_links_shape [OF r2]
      show ?thesis
      proof (cases d2)
        case True
        with False r1 r2 assms have eq: "t = Downloaded"
          "s' = s\<lparr>trailersDownloaded := trailersDownloaded s + 1\<rparr>"
          and calls: "calls = map (Pair Apple) calls1 @ map (Pair YouTube) calls2"
          by (simp_all add: try_downloads_def)
        from True s2 obtain n where n: "n < length ytLinks"
          and f2: "map fst calls2 = take (Suc n) ytLinks"
          and o2: "map snd calls2 = replicate n False @ [True]" by blast
        let ?k = "length appleLinks + n"
        have "?k < length (candidates appleLinks ytLinks)" using n by (simp add: candidates_def)
        moreover have "map attempt calls
            = map (Pair Apple) appleLinks @ map (Pair YouTube) (take (Suc n) ytLinks)"
          by (simp only: calls map_append map_attempt_Pair f1 f2)
        then have "map attempt calls = take (Suc ?k) (candidates appleLinks ytLinks)"
          using n by (simp add: candidates_def take_map)
        moreover have "map succeeded calls
            = replicate (length appleLinks) False @ replicate n False @ [True]"
          by (simp only: calls map_append map_succeeded_Pair o1 o2)
        then have "map succeeded calls = replicate ?k False @ [True]"
          by (simp add: replicate_add)
        ultimately show ?thesis using eq by blast
      next
        case d2F: False
        with False r1 r2 assms have eq: "t = NotFound" "s' = s"
          and calls: "calls = map (Pair Apple) calls1 @ map (Pair YouTube) calls2"
          by (simp_all add: try_downloads_def)
        from d2F s2 have f2: "map fst calls2 = ytLinks"
          and o2: "map snd calls2 = replicate (length ytLinks) False" by simp_all
        have "map attempt calls = candidates appleLinks ytLinks"
          by (simp only: calls map_append map_attempt_Pair f1 f2 candidates_def)
        moreover have "map succeeded calls
            = replicate (length appleLinks) False @ replicate (length ytLinks) False"
          by (simp only: calls map_append map_succeeded_Pair o1 o2)
        then have "map succeeded calls = replicate (length (candidates appleLinks ytLinks)) False"
          by (simp add: candidates_def replicate_add)
        ultimately show ?thesis using eq by simp
      qed
    qed
  qed
  have "replay (download_from c folder) (map attempt calls) w = (map succeeded calls, w')"
    using assms by (rule try_downloads_replay)
  with shape show ?thesis by blast
qed

theorem downloads_in_order_witness:
  "try_downloads (ex_counting_collab [''a2'', ''y1'']) ex_empty_folder
      [''a1'', ''a2'', ''a3''] [''y1''] (TrailerTech_init, 0)
     = (Downloaded, \<lparr>directoriesScanned = 0, trailersDownloaded = 1, trailersFound = 0\<rparr>, 2,
        [(Apple, ''a1'', False), (Apple, ''a2'', True)])
   \<and> map attempt [(Apple, ''a1'', False), (Apple, ''a2'', True)]
       = take 2 (candidates [''a1'', ''a2'', ''a3''] [''y1''])
   \<and> \<lparr>directoriesScanned = 0, trailersDownloaded = 1, trailersFound = 0\<rparr>
       = TrailerTech_init\<lparr>trailersDownloaded := trailersDownloaded TrailerTech_init + 1\<rparr>
   \<and> replay (download_from (ex_counting_collab [''a2'', ''y1'']) ex_empty_folder)
        [(Apple, ''a1''), (Apple, ''a2'')] 0 = ([False, True], 2)
   \<and> try_downloads (ex_counting_collab []) ex_empty_folder [''a1''] [''y1''] (TrailerTech_init, 0)
     = (NotFound, TrailerTech_init, 2, [(Apple, ''a1'', False), (YouTube, ''y1'', False)])
   \<and> map attempt [(Apple, ''a1'', False), (YouTube, ''y1'', False)] = candidates [''a1''] [''y1'']
   \<and> replay (download_from (ex_counting_collab []) ex_empty_folder)
        [(Apple, ''a1''), (YouTube, ''y1'')] 0 = ([False, False], 2)"
proof -
  let ?c1 = "ex_counting_collab [''a2'', ''y1'']"
  let ?c2 = "ex_counting_collab []"
  let ?calls1 = "[(Apple, ''a1'', False), (Apple, ''a2'', True)]"
  let ?calls2 = "[(Apple, ''a1'', False), (YouTube, ''y1'', False)]"
  have r1: "try_downloads ?c1 ex_empty_folder [''a1'', ''a2'', ''a3''] [''y1''] (TrailerTech_init, 0)
     = (Downloaded, \<lparr>directoriesScanned = 0, trailersDownloaded = 1, trailersFound = 0\<rparr>, 2,
        ?calls1)"
    by code_simp
  have r2: "try_downloads ?c2 ex_empty_folder [''a1''] [''y1''] (TrailerTech_init, 0)
     = (NotFound, TrailerTech_init, 2, ?calls2)"
    by code_simp
  have m1: "map attempt ?calls1 = [(Apple, ''a1''), (Apple, ''a2'')]"
    "map succeeded ?calls1 = [False, True]"
    by (simp_all add: attempt_def succeeded_def)
  have m2: "map attempt ?calls2 = [(Apple, ''a1''), (YouTube, ''y1'')]"
    "map succeeded ?calls2 = [False, False]"
    by (simp_all add: attempt_def succeeded_def)
  note t1 = downloads_in_order_until_first_success [OF r1]
  note t2 = downloads_in_order_until_first_success [OF r2]
  from t1 obtain n where n: "map attempt ?calls1
        = take (Suc n) (candidates [''a1'', ''a2'', ''a3''] [''y1''])"
      "map succeeded ?calls1 = replicate n False @ [True]"
      and s: "\<lparr>directoriesScanned = 0, trailersDownloaded = 1, trailersFound = 0\<rparr>
       = TrailerTech_init\<lparr>trailersDownloaded := trailersDownloaded TrailerTech_init + 1\<rparr>"
    by blast
  from n(2) have "length (map succeeded ?calls1) = length (replicate n False @ [True])"
    by (rule arg_cong)
  then have "Suc n = 2" by simp
  with n(1) have a: "map attempt ?calls1 = take 2 (candidates [''a1'', ''a2'', ''a3''] [''y1''])"
    by simp
  from t1 have "replay (download_from ?c1 ex_empty_folder) (map attempt ?calls1) 0
      = (map succeeded ?calls1, 2)" by blast
  then have p1: "replay (download_from ?c1 ex_empty_folder) [(Apple, ''a1''), (Apple, ''a2'')] 0
      = ([False, True], 2)" by (simp only: m1)
  from t2 have b: "map attempt ?calls2 = candidates [''a1''] [''y1'']" by blast
  from t2 have "replay (download_from ?c2 ex_empty_folder) (map attempt ?calls2) 0
      = (map succeeded ?calls2, 2)" by blast
  then have p2: "replay (download_from ?c2 ex_empty_folder) [(Apple, ''a1''), (YouTube, ''y1'')] 0
      = ([False, False], 2)" by (simp only: m2)
  show ?thesis using r1 r2 a s p1 b p2 by blast
qed

section \<open>The counters\<close>






section \<open>Disc folders\<close>

lemma disc_trailers_trailer:
  "trailer (disc_trailers env dir marker entries self) = trailer self
   \<or> (\<exists>entry\<in>set entries. py_in marker (py_lower entry)
        \<and> \<not> isMovie (Video_init env (path_join dir entry) False False)
        \<and> trailer (disc_trailers env dir marker entries self)
            = Some (Video_init env (path_join dir entry) False False))"
proof (induction entries arbitrary: self)
  case Nil
  then show ?case by simp
next
  case (Cons entry entries)
  let ?v = "Video_init env (path_join dir entry) False False"
  let ?mid = "if py_in marker (py_lower entry) \<and> \<not> isMovie ?v then self\<lparr>trailer := Some ?v\<rparr> else self"
  have step: "disc_trailers env dir marker (entry # entries) self = disc_trailers env dir marker entries ?mid"
    by (simp add: Let_def)
  from Cons.IH [of ?mid] show ?case
    unfolding step by (auto split: if_splits)
qed

lemma scan_item_disc:
  assumes "\<not> isfile env path" "isdir env path" "py_in ''bdmv'' (py_lower path)"
    "isfile env (path_join path ''index.bdmv'')"
  shows "scan_item env self path
     = Inr (disc_trailers env path ''index-trailer'' (listdir env path)
              (self\<lparr>movie := Some (index_video path)\<rparr>))"
  using assms by (simp add: scan_item_def Let_def Video_init_def index_video_def)

lemma scan_items_append:
  "scan_items env self (xs @ ys) = bindE (scan_items env self xs) (\<lambda>mid. scan_items env mid ys)"
proof (induction xs arbitrary: self)
  case Nil
  then show ?case by (simp add: bindE_def)
next
  case (Cons x xs)
  then show ?case
    by (cases "scan_item env self (path_join (rootDir self) x)") (simp_all add: bindE_def)
qed

lemma scan_item_rootDir: "scan_item env self path = Inr self' \<Longrightarrow> rootDir self' = rootDir self"
  by (auto simp add: scan_item_def Let_def keep_nfo_def bindE_def disc_trailers_keeps
      split: if_splits sum.splits option.splits)

lemma scan_items_no_movie:
  "\<forall>q\<in>set names. sets_no_movie env (path_join (rootDir self) q) \<Longrightarrow>
   scan_items env self names = Inr self' \<Longrightarrow> movie self' = movie self"
proof (induction names arbitrary: self)
  case Nil
  then show ?case by simp
next
  case (Cons x names)
  then obtain mid where m: "scan_item env self (path_join (rootDir self) x) = Inr mid"
    "scan_items env mid names = Inr self'"
    by (cases "scan_item env self (path_join (rootDir self) x)") (auto simp add: bindE_def)
  from Cons.prems(1) m(1) have a: "movie mid = movie self" by (simp add: sets_no_movie_def)
  have "rootDir mid = rootDir self" using m(1) by (rule scan_item_rootDir)
  with Cons.prems(1) have "\<forall>q\<in>set names. sets_no_movie env (path_join (rootDir mid) q)" by simp
  from Cons.IH [OF this m(2)] a show ?case by simp
qed

text \<open>
  Claim C9, as amended. Let the scan reach an entry that is not a regular file but a
  directory, whose lower-cased path contains \<open>bdmv\<close> and in which \<open>index.bdmv\<close> exists.
  The step sets the movie to the video built from that index file, with the duration
  forced to 601 seconds, so it counts as a movie; the probe plays no part, whatever it
  would report. The step leaves the trailer as it was, or sets it to a child entry whose
  lower-cased name contains \<open>index-trailer\<close> and which normal probing classifies as not
  a movie. The index video is the movie of the folder's classification result whenever
  no entry scanned after the disc directory assigns the movie.
\<close>

theorem disc_folder_movie_and_trailer:
  assumes "\<not> isfile env path" and "isdir env path" and "py_in ''bdmv'' (py_lower path)"
    and "isfile env (path_join path ''index.bdmv'')"
  shows "(\<exists>self'. scan_item env self path = Inr self'
            \<and> movie self' = Some (index_video path)
            \<and> isMovie (index_video path)
            \<and> (trailer self' = trailer self
               \<or> (\<exists>entry\<in>set (listdir env path). py_in ''index-trailer'' (py_lower entry)
                    \<and> \<not> isMovie (Video_init env (path_join path entry) False False)
                    \<and> trailer self' = Some (Video_init env (path_join path entry) False False))))
       \<and> (\<forall>probe. \<exists>self'. scan_item (env\<lparr>ffprobe := probe\<rparr>) self path = Inr self'
            \<and> movie self' = Some (index_video path))
       \<and> (\<forall>before name after result.
            path = path_join (rootDir self) name
            \<and> scan_items env self (before @ name # after) = Inr result
            \<and> (\<forall>q\<in>set after. sets_no_movie env (path_join (rootDir self) q))
            \<longrightarrow> movie result = Some (index_video path))"
proof (intro conjI allI impI)
  let ?r = "disc_trailers env path ''index-trailer'' (listdir env path) (self\<lparr>movie := Some (index_video path)\<rparr>)"
  have r: "scan_item env self path = Inr ?r" using assms by (rule scan_item_disc)
  have m: "movie ?r = Some (index_video path)" by (simp add: disc_trailers_keeps)
  have i: "isMovie (index_video path)"
    by (simp add: isMovie_def index_video_def float_ge_def MIN_MOVIE_DURATION_def)
  from disc_trailers_trailer [of env path "''index-trailer''" "listdir env path" "self\<lparr>movie := Some (index_video path)\<rparr>"]
  have t: "trailer ?r = trailer self
       \<or> (\<exists>entry\<in>set (listdir env path). py_in ''index-trailer'' (py_lower entry)
            \<and> \<not> isMovie (Video_init env (path_join path entry) False False)
            \<and> trailer ?r = Some (Video_init env (path_join path entry) False False))"
    by simp
  from r m i t show "\<exists>self'. scan_item env self path = Inr self'
            \<and> movie self' = Some (index_video path)
            \<and> isMovie (index_video path)
            \<and> (trailer self' = trailer self
               \<or> (\<exists>entry\<in>set (listdir env path). py_in ''index-trailer'' (py_lower entry)
                    \<and> \<not> isMovie (Video_init env (path_join path entry) False False)
                    \<and> trailer self' = Some (Video_init env (path_join path entry) False False)))"
    by blast
next
  fix probe
  let ?env = "env\<lparr>ffprobe := probe\<rparr>"
  have "scan_item ?env self path
     = Inr (disc_trailers ?env path ''index-trailer'' (listdir ?env path)
              (self\<lparr>movie := Some (index_video path)\<rparr>))"
    using assms by (intro scan_item_disc) simp_all
  then show "\<exists>self'. scan_item ?env self path = Inr self' \<and> movie self' = Some (index_video path)"
    by (simp add: disc_trailers_keeps)
next
  fix before name after result
  assume h: "path = path_join (rootDir self) name
            \<and> scan_items env self (before @ name # after) = Inr result
            \<and> (\<forall>q\<in>set after. sets_no_movie env (path_join (rootDir self) q))"
  then obtain mid where mid: "scan_items env self before = Inr mid"
    "scan_items env mid (name # after) = Inr result"
    by (cases "scan_items env self before") (auto simp add: scan_items_append bindE_def)
  have root: "rootDir mid = rootDir self" using mid(1) by (rule scan_items_rootDir)
  from mid(2) obtain mid2 where mid2: "scan_item env mid (path_join (rootDir mid) name) = Inr mid2"
    "scan_items env mid2 after = Inr result"
    by (cases "scan_item env mid (path_join (rootDir mid) name)") (auto simp add: bindE_def)
  from h root have p: "path_join (rootDir mid) name = path" by simp
  have "scan_item env mid path
     = Inr (disc_trailers env path ''index-trailer'' (listdir env path)
              (mid\<lparr>movie := Some (index_video path)\<rparr>))"
    using assms by (rule scan_item_disc)
  with mid2(1) p have m2: "movie mid2 = Some (index_video path)" "rootDir mid2 = rootDir self"
    using root by (auto simp add: disc_trailers_keeps)
  from h m2(2) have "\<forall>q\<in>set after. sets_no_movie env (path_join (rootDir mid2) q)" by simp
  from scan_items_no_movie [OF this mid2(2)] m2(1)
  show "movie result = Some (index_video path)" by simp
qed

theorem disc_folder_witness:
  "\<not> isfile (ex_disc_fs [''z.mkv'', ''BDMV'']) ''/m/BDMV''
   \<and> isdir (ex_disc_fs [''z.mkv'', ''BDMV'']) ''/m/BDMV''
   \<and> py_in ''bdmv'' (py_lower ''/m/BDMV'')
   \<and> isfile (ex_disc_fs [''z.mkv'', ''BDMV'']) (path_join ''/m/BDMV'' ''index.bdmv'')
   \<and> scan_items (ex_disc_fs [''z.mkv'', ''BDMV'']) ex_empty_folder [''z.mkv'', ''BDMV'']
       = Inr \<lparr>rootDir = ''/m'',
              movie = Some \<lparr>v_path = ''/m/BDMV/index.bdmv'', duration = Num 601\<rparr>,
              trailer = Some \<lparr>v_path = ''/m/BDMV/index-trailer.mp4'', duration = Num 90\<rparr>,
              nfo = None\<rparr>
   \<and> Some \<lparr>v_path = ''/m/BDMV/index.bdmv'', duration = Num 601\<rparr> = Some (index_video ''/m/BDMV'')
   \<and> isMovie (index_video ''/m/BDMV'')"
proof -
  let ?env = "ex_disc_fs [''z.mkv'', ''BDMV'']"
  let ?result = "\<lparr>rootDir = ''/m'',
              movie = Some \<lparr>v_path = ''/m/BDMV/index.bdmv'', duration = Num 601\<rparr>,
              trailer = Some \<lparr>v_path = ''/m/BDMV/index-trailer.mp4'', duration = Num 90\<rparr>,
              nfo = None\<rparr>"
  have h1: "\<not> isfile ?env ''/m/BDMV''" by code_simp
  have h2: "isdir ?env ''/m/BDMV''" by code_simp
  have h3: "py_in ''bdmv'' (py_lower ''/m/BDMV'')" by code_simp
  have h4: "isfile ?env (path_join ''/m/BDMV'' ''index.bdmv'')" by code_simp
  have p: "''/m/BDMV'' = path_join (rootDir ex_empty_folder) ''BDMV''" by code_simp
  have run: "scan_items ?env ex_empty_folder ([''z.mkv''] @ ''BDMV'' # []) = Inr ?result"
    by code_simp
  note t = disc_folder_movie_and_trailer [OF h1 h2 h3 h4, of ex_empty_folder]
  from t have i: "isMovie (index_video ''/m/BDMV'')" by blast
  from t have later: "\<forall>before name after result.
            ''/m/BDMV'' = path_join (rootDir ex_empty_folder) name
            \<and> scan_items ?env ex_empty_folder (before @ name # after) = Inr result
            \<and> (\<forall>q\<in>set after. sets_no_movie ?env (path_join (rootDir ex_empty_folder) q))
            \<longrightarrow> movie result = Some (index_video ''/m/BDMV'')" by blast
  have none_after: "\<forall>q\<in>set ([] :: string list).
      sets_no_movie ?env (path_join (rootDir ex_empty_folder) q)" by simp
  from later p run none_after have "movie ?result = Some (index_video ''/m/BDMV'')" by blast
  then have m: "Some \<lparr>v_path = ''/m/BDMV/index.bdmv'', duration = Num 601\<rparr>
      = Some (index_video ''/m/BDMV'')" by simp
  from run have run': "scan_items ?env ex_empty_folder [''z.mkv'', ''BDMV''] = Inr ?result" by simp
  show ?thesis using h1 h2 h3 h4 run' m i by blast
qed

text \<open>
  Claim C9 as stated fails when a movie file is scanned after the disc directory: with
  the listing order \<open>BDMV\<close>, \<open>z.mkv\<close> the classification result's movie is \<open>z.mkv\<close>.
\<close>

theorem disc_folder_overridden_counterexample:
  "\<not> isfile (ex_disc_fs [''BDMV'', ''z.mkv'']) ''/m/BDMV''
   \<and> isdir (ex_disc_fs [''BDMV'', ''z.mkv'']) ''/m/BDMV''
   \<and> py_in ''bdmv'' (py_lower ''/m/BDMV'')
   \<and> isfile (ex_disc_fs [''BDMV'', ''z.mkv'']) (path_join ''/m/BDMV'' ''index.bdmv'')
   \<and> MovieFolder_init (ex_disc_fs [''BDMV'', ''z.mkv'']) ''/m''
       = Inr \<lparr>rootDir = ''/m'',
              movie = Some \<lparr>v_path = ''/m/z.mkv'', duration = Num 1800\<rparr>,
              trailer = Some \<lparr>v_path = ''/m/BDMV/index-trailer.mp4'', duration = Num 90\<rparr>,
              nfo = None\<rparr>
   \<and> Some \<lparr>v_path = ''/m/z.mkv'', duration = Num 1800\<rparr> \<noteq> Some (index_video ''/m/BDMV'')"
  by code_simp

section \<open>File extensions\<close>

lemma recognised_extensions_lowercase:
  "\<forall>e\<in>set (VIDEO_EXTENSIONS @ NFO_EXTENSIONS). py_lower e = e"
  by code_simp

text \<open>
  Claim C4, as amended. A file entry's extension is compared exactly, letter case
  included, with the fixed lists, whose members are all lower-case. An extension that
  differs from its own lower-case form, so also one that differs from a recognized
  extension only in letter case, is recognized neither as a video nor as a sidecar
  extension, and the entry leaves the classification unchanged. An extension in the
  video list makes the entry the movie or the trailer; one in the sidecar list sends
  it to the sidecar choice.
\<close>

theorem extension_match_is_case_sensitive:
  assumes "isfile env path"
  shows "(py_lower (snd (splitext path)) \<noteq> snd (splitext path) \<longrightarrow>
            snd (splitext path) \<notin> set VIDEO_EXTENSIONS
            \<and> snd (splitext path) \<notin> set NFO_EXTENSIONS
            \<and> scan_item env self path = Inr self)
       \<and> (snd (splitext path) \<in> set VIDEO_EXTENSIONS \<longrightarrow>
            scan_item env self path
              = Inr (if isMovie (Video_init env path False False)
                     then self\<lparr>movie := Some (Video_init env path False False)\<rparr>
                     else self\<lparr>trailer := Some (Video_init env path False False)\<rparr>))
       \<and> (snd (splitext path) \<in> set NFO_EXTENSIONS \<longrightarrow>
            scan_item env self path = bindE (NFO_init env path) (keep_nfo env self))"
proof (intro conjI impI)
  assume "py_lower (snd (splitext path)) \<noteq> snd (splitext path)"
  with recognised_extensions_lowercase
  have "snd (splitext path) \<notin> set VIDEO_EXTENSIONS" "snd (splitext path) \<notin> set NFO_EXTENSIONS"
    by auto
  with assms show "snd (splitext path) \<notin> set VIDEO_EXTENSIONS"
    "snd (splitext path) \<notin> set NFO_EXTENSIONS" "scan_item env self path = Inr self"
    by (simp_all add: scan_item_def Let_def)
next
  assume "snd (splitext path) \<in> set VIDEO_EXTENSIONS"
  with assms show "scan_item env self path
              = Inr (if isMovie (Video_init env path False False)
                     then self\<lparr>movie := Some (Video_init env path False False)\<rparr>
                     else self\<lparr>trailer := Some (Video_init env path False False)\<rparr>)"
    by (simp add: scan_item_def Let_def)
next
  assume "snd (splitext path) \<in> set NFO_EXTENSIONS"
  with assms show "scan_item env self path = bindE (NFO_init env path) (keep_nfo env self)"
    by (simp add: scan_item_def Let_def nfo_ext_not_video)
qed

theorem extension_match_witness:
  "isfile (ex_fs [''movie.MKV'', ''movie.mkv'']
             [(''/m/movie.MKV'', Num 1800), (''/m/movie.mkv'', Num 1800)] []) ''/m/movie.MKV''
   \<and> py_lower (snd (splitext ''/m/movie.MKV'')) \<noteq> snd (splitext ''/m/movie.MKV'')
   \<and> scan_item (ex_fs [''movie.MKV'', ''movie.mkv'']
             [(''/m/movie.MKV'', Num 1800), (''/m/movie.mkv'', Num 1800)] [])
        ex_empty_folder ''/m/movie.MKV'' = Inr ex_empty_folder"
proof -
  let ?env = "ex_fs [''movie.MKV'', ''movie.mkv'']
             [(''/m/movie.MKV'', Num 1800), (''/m/movie.mkv'', Num 1800)] []"
  have f: "isfile ?env ''/m/movie.MKV''" by code_simp
  have u: "py_lower (snd (splitext ''/m/movie.MKV'')) \<noteq> snd (splitext ''/m/movie.MKV'')"
    by code_simp
  from extension_match_is_case_sensitive [OF f, of ex_empty_folder] u
  have "scan_item ?env ex_empty_folder ''/m/movie.MKV'' = Inr ex_empty_folder" by blast
  with f u show ?thesis by blast
qed

text \<open>
  Claim C4 as stated fails for \<open>movie.MKV\<close> and \<open>movie.mkv\<close>, both 1800 seconds long:
  the extensions differ only in letter case, the second file becomes the movie, the first
  is ignored.
\<close>

theorem extension_case_counterexample:
  "py_lower (snd (splitext ''/m/movie.MKV'')) = snd (splitext ''/m/movie.mkv'')
   \<and> snd (splitext ''/m/movie.mkv'') \<in> set VIDEO_EXTENSIONS
   \<and> scan_item (ex_fs [''movie.MKV'', ''movie.mkv'']
             [(''/m/movie.MKV'', Num 1800), (''/m/movie.mkv'', Num 1800)] [])
        ex_empty_folder ''/m/movie.mkv''
       = Inr (ex_empty_folder\<lparr>movie := Some \<lparr>v_path = ''/m/movie.mkv'', duration = Num 1800\<rparr>\<rparr>)
   \<and> scan_item (ex_fs [''movie.MKV'', ''movie.mkv'']
             [(''/m/movie.MKV'', Num 1800), (''/m/movie.mkv'', Num 1800)] [])
        ex_empty_folder ''/m/movie.MKV''
       = Inr ex_empty_folder"
  by code_simp

end
